theory Spec2Isabelle
  imports Main "HOL-Library.Word" "HOL-Library.Sublist"
begin

unbundle bit_operations_syntax

section \<open>Process exits and error numbers\<close>

text \<open>
  The sandbox never recovers from a failed step: \<open>DIE\<close>, \<open>CHECK_CALL\<close>,
  \<open>CHECK_CALL_MSG\<close> and \<open>Usage\<close> all end in \<open>exit(EXIT_FAILURE)\<close>. A function
  of the program that can leave through one of them returns \<open>error + 'a\<close>, with
  \<open>Inl\<close> for the exit. \<open>MemFault\<close> marks an access outside an allocated object, which
  C leaves undefined.
\<close>

datatype error =
    Fatal string
  | UsageError string
  | ProbeExit
  | MemFault

datatype errno =
    EPERM | ENOENT | EIO | EACCES | EEXIST | ENOTDIR | EISDIR | EINVAL
  | ENOSPC | EROFS | ENAMETOOLONG | ELOOP | EBUSY

section \<open>Inherited mount flags (GetMountFlags)\<close>

text \<open>
  One line of \<open>/proc/self/mounts\<close> as \<open>getmntent\<close> returns it. \<open>mnt_opts\<close> is the
  comma separated option field, held here as the list of its options.
\<close>

record mntent =
  mnt_fsname :: string
  mnt_dir :: string
  mnt_type :: string
  mnt_opts :: "string list"

text \<open>
  \<open>hasmntopt\<close> is libc's: it finds an option of the entry by name, whether the option
  stands alone or carries a value (\<open>name=value\<close>).
\<close>

definition hasmntopt :: "mntent \<Rightarrow> string \<Rightarrow> bool" where
  "hasmntopt entry opt =
     list_ex (\<lambda>x. x = opt \<or> prefix (opt @ ''='') x) (mnt_opts entry)"

text \<open>The mount flags of \<open>sys/mount.h\<close> on Linux; \<open>unsigned long\<close> has 64 bits.\<close>

definition MS_RDONLY :: "64 word" where "MS_RDONLY = 1"
definition MS_NOSUID :: "64 word" where "MS_NOSUID = 2"
definition MS_NODEV :: "64 word" where "MS_NODEV = 4"
definition MS_NOEXEC :: "64 word" where "MS_NOEXEC = 8"
definition MS_REMOUNT :: "64 word" where "MS_REMOUNT = 32"
definition MS_BIND :: "64 word" where "MS_BIND = 4096"
definition MS_REC :: "64 word" where "MS_REC = 16384"

text \<open>
  The scan of the mount table: \<open>getmntent\<close> is called until it returns \<open>NULL\<close> or
  the entry's mount point equals the path, where the loop is left by \<open>break\<close>.
\<close>

fun scan_mounts :: "mntent list \<Rightarrow> string \<Rightarrow> mntent option" where
  "scan_mounts [] path = None"
| "scan_mounts (entry # rest) path =
     (if mnt_dir entry = path then Some entry else scan_mounts rest path)"

text \<open>
  \<open>GetMountFlags\<close>. The first argument is what \<open>setmntent\<close> gives: \<open>None\<close> when
  \<open>/proc/self/mounts\<close> cannot be opened, else its entries in file order.
\<close>

definition GetMountFlags :: "mntent list option \<Rightarrow> string \<Rightarrow> error + 64 word" where
  "GetMountFlags mtab path =
     (case mtab of
        None \<Rightarrow> Inl (Fatal ''Cannot open /proc/self/mounts'')
      | Some entries \<Rightarrow>
          (case scan_mounts entries path of
             Some entry \<Rightarrow>
               (let ret = 0;
                    ret = (if hasmntopt entry ''nodev'' then ret OR MS_NODEV else ret);
                    ret = (if hasmntopt entry ''nosuid'' then ret OR MS_NOSUID else ret);
                    ret = (if hasmntopt entry ''noexec'' then ret OR MS_NOEXEC else ret)
                in Inr ret)
           | None \<Rightarrow> Inr 0))"

text \<open>The entry the specification names: the last one mounted on the path.\<close>

definition last_mounted_on :: "mntent list \<Rightarrow> string \<Rightarrow> mntent option" where
  "last_mounted_on entries path = scan_mounts (rev entries) path"

section \<open>Namespace creation (CreateNamespaces)\<close>

definition CLONE_NEWNS :: "32 word" where "CLONE_NEWNS = 0x00020000"
definition CLONE_NEWUTS :: "32 word" where "CLONE_NEWUTS = 0x04000000"
definition CLONE_NEWIPC :: "32 word" where "CLONE_NEWIPC = 0x08000000"
definition CLONE_NEWUSER :: "32 word" where "CLONE_NEWUSER = 0x10000000"
definition CLONE_NEWNET :: "32 word" where "CLONE_NEWNET = 0x40000000"

text \<open>What the function does to the outside, in order.\<close>

datatype ns_call = Unshare "32 word" | Usleep int

definition max_tries :: nat where "max_tries = 100"

text \<open>
  The retry loop. \<open>unshare k\<close> is the kernel's answer to the call number \<open>k\<close>
  (counted from 0): \<open>None\<close> for success, \<open>Some e\<close> for failure with \<open>errno = e\<close>.
  \<open>tries\<close> is the value of the C variable before \<open>tries++ < max_tries\<close> is
  evaluated. The result is how the function ends and the calls it made.
\<close>

function CreateNamespaces_loop ::
  "(nat \<Rightarrow> errno option) \<Rightarrow> 32 word \<Rightarrow> int \<Rightarrow> nat \<Rightarrow> (error + unit) \<times> ns_call list" where
  "CreateNamespaces_loop unshare flags delay tries =
     (if tries < max_tries then
        (case unshare tries of
           None \<Rightarrow> (Inr (), [Unshare flags])
         | Some e \<Rightarrow>
             if e \<noteq> EINVAL then (Inl (Fatal ''unshare''), [Unshare flags])
             else
               (case CreateNamespaces_loop unshare flags
                       (if delay < 250000 then delay * 2 else delay) (tries + 1) of
                  (r, calls) \<Rightarrow> (r, Unshare flags # Usleep delay # calls)))
      else (Inl (Fatal ''unshare failed with EINVAL, giving up.''), []))"
  by pat_completeness auto
termination
  by (relation "measure (\<lambda>(unshare, flags, delay, tries). max_tries - tries)") auto

definition CreateNamespaces ::
  "(nat \<Rightarrow> errno option) \<Rightarrow> bool \<Rightarrow> (error + unit) \<times> ns_call list" where
  "CreateNamespaces unshare create_netns =
     CreateNamespaces_loop unshare
       (CLONE_NEWUSER OR CLONE_NEWNS OR CLONE_NEWUTS OR CLONE_NEWIPC OR
          (if create_netns then CLONE_NEWNET else 0))
       1 0"

section \<open>The file system\<close>

datatype kind = Dir | Reg | Other

record inode =
  kind :: kind
  perm :: "32 word"

record world =
  nodes :: "string list \<rightharpoonup> inode"
  cwd :: "string list"
  umask :: "32 word"
  errno :: errno

definition mode_0755 :: "32 word" where "mode_0755 = 493"
definition mode_0666 :: "32 word" where "mode_0666 = 438"

definition node_at :: "world \<Rightarrow> string list \<Rightarrow> inode option" where
  "node_at w p =
     (if p = [] \<or> p = cwd w then Some \<lparr>kind = Dir, perm = mode_0755\<rparr> else nodes w p)"

fun split_slash :: "string \<Rightarrow> string list" where
  "split_slash [] = [[]]"
| "split_slash (c # cs) =
     (if c = CHR ''/'' then [] # split_slash cs
      else (case split_slash cs of [] \<Rightarrow> [[c]] | x # xs \<Rightarrow> (c # x) # xs))"

definition step :: "string list \<Rightarrow> string \<Rightarrow> string list" where
  "step cur c =
     (if c = [] \<or> c = ''.'' then cur else if c = ''..'' then butlast cur else cur @ [c])"

fun walk :: "world \<Rightarrow> string list \<Rightarrow> string list \<Rightarrow> errno + string list" where
  "walk w cur [] = Inr cur"
| "walk w cur (c # cs) =
     (case node_at w cur of
        None \<Rightarrow> Inl ENOENT
      | Some n \<Rightarrow> if kind n \<noteq> Dir then Inl ENOTDIR else walk w (step cur c) cs)"

definition start_dir :: "world \<Rightarrow> string \<Rightarrow> string list" where
  "start_dir w path = (case path of [] \<Rightarrow> cwd w | c # _ \<Rightarrow> if c = CHR ''/'' then [] else cwd w)"

definition stat :: "world \<Rightarrow> string \<Rightarrow> errno + inode" where
  "stat w path =
     (if path = [] then Inl ENOENT
      else (case walk w (start_dir w path) (split_slash path) of
              Inl e \<Rightarrow> Inl e
            | Inr p \<Rightarrow> (case node_at w p of None \<Rightarrow> Inl ENOENT | Some n \<Rightarrow> Inr n)))"

definition add_node :: "world \<Rightarrow> string list \<Rightarrow> inode \<Rightarrow> world" where
  "add_node w p n = w\<lparr>nodes := (nodes w)(p \<mapsto> n)\<rparr>"

definition create_node ::
  "world \<Rightarrow> string list \<Rightarrow> string list \<Rightarrow> string \<Rightarrow> inode \<Rightarrow> errno + world" where
  "create_node w start parent name n =
     (case walk w start parent of
        Inl e \<Rightarrow> Inl e
      | Inr d \<Rightarrow>
          (case node_at w d of
             None \<Rightarrow> Inl ENOENT
           | Some dn \<Rightarrow>
               if kind dn \<noteq> Dir then Inl ENOTDIR
               else if name = ''.'' \<or> name = ''..'' then Inl EEXIST
               else if node_at w (d @ [name]) \<noteq> None then Inl EEXIST
               else Inr (add_node w (d @ [name]) n)))"

definition mkdir :: "world \<Rightarrow> string \<Rightarrow> 32 word \<Rightarrow> errno + world" where
  "mkdir w path mode =
     (if path = [] then Inl ENOENT
      else (case dropWhile (\<lambda>x. x = []) (rev (split_slash path)) of
              [] \<Rightarrow> Inl EEXIST
            | name # rparent \<Rightarrow>
                create_node w (start_dir w path) (rev rparent) name
                  \<lparr>kind = Dir, perm = mode AND NOT (umask w)\<rparr>))"

definition open_excl :: "world \<Rightarrow> string \<Rightarrow> 32 word \<Rightarrow> errno + world" where
  "open_excl w path mode =
     (if path = [] then Inl ENOENT
      else (case rev (split_slash path) of
              [] \<Rightarrow> Inl ENOENT
            | name # rparent \<Rightarrow>
                if name = [] then Inl EISDIR
                else create_node w (start_dir w path) (rev rparent) name
                       \<lparr>kind = Reg, perm = mode AND NOT (umask w)\<rparr>))"

definition CreateFile :: "world \<Rightarrow> string \<Rightarrow> error + world" where
  "CreateFile w path =
     (case open_excl w path mode_0666 of
        Inl e \<Rightarrow> Inl (Fatal (''cannot create '' @ path))
      | Inr w' \<Rightarrow> Inr w')"

definition strip_slashes :: "string \<Rightarrow> string" where
  "strip_slashes p = rev (dropWhile (\<lambda>c. c = CHR ''/'') (rev p))"

definition strip_name :: "string \<Rightarrow> string" where
  "strip_name p = rev (dropWhile (\<lambda>c. c \<noteq> CHR ''/'') (rev p))"

definition dirname :: "string \<Rightarrow> string" where
  "dirname path =
     (if strip_slashes path = [] then (if path = [] then ''.'' else ''/'')
      else if strip_name (strip_slashes path) = [] then ''.''
      else if strip_slashes (strip_name (strip_slashes path)) = [] then ''/''
      else strip_slashes (strip_name (strip_slashes path)))"


section \<open>Recursive target creation (CreateTarget)\<close>

text \<open>
  \<open>dirname\<close> drops the last name of a path, so its result is \<open>.\<close>, \<open>/\<close> or
  shorter than the path. With \<open>stat\<close> never failing on \<open>.\<close> and \<open>/\<close>, this bounds
  the recursion of \<open>CreateTarget\<close>.
\<close>

lemma length_strip_slashes: "length (strip_slashes p) \<le> length p"
  using length_dropWhile_le [of "\<lambda>c. c = CHR ''/''" "rev p"] by (simp add: strip_slashes_def)

lemma length_strip_name:
  assumes "strip_slashes p \<noteq> []"
  shows "length (strip_name (strip_slashes p)) < length p"
proof -
  obtain c r where r: "dropWhile (\<lambda>c. c = CHR ''/'') (rev p) = c # r"
    using assms by (cases "dropWhile (\<lambda>c. c = CHR ''/'') (rev p)") (simp_all add: strip_slashes_def)
  have c: "c \<noteq> CHR ''/''"
    using hd_dropWhile [of "\<lambda>c. c = CHR ''/''" "rev p"] r by simp
  have "length (dropWhile (\<lambda>c. c \<noteq> CHR ''/'') (c # r)) \<le> length r"
    using c by (simp add: length_dropWhile_le)
  moreover have "length (c # r) \<le> length (rev p)"
    unfolding r [symmetric] by (rule length_dropWhile_le)
  ultimately show ?thesis
    by (simp add: strip_name_def strip_slashes_def r)
qed

lemma dirname_shorter:
  "dirname p = ''.'' \<or> dirname p = ''/'' \<or> length (dirname p) < length p"
proof (cases "strip_slashes p = []")
  case True
  then show ?thesis by (simp add: dirname_def)
next
  case False
  have "length (strip_slashes (strip_name (strip_slashes p))) \<le> length (strip_name (strip_slashes p))"
    by (rule length_strip_slashes)
  also have "\<dots> < length p" using False by (rule length_strip_name)
  finally show ?thesis using False by (simp add: dirname_def)
qed

lemma dirname_not_empty: "dirname p \<noteq> []"
  by (simp add: dirname_def)

lemma stat_dot: "stat w ''.'' = Inr \<lparr>kind = Dir, perm = mode_0755\<rparr>"
  by (simp add: stat_def start_dir_def node_at_def step_def)

lemma stat_root: "stat w ''/'' = Inr \<lparr>kind = Dir, perm = mode_0755\<rparr>"
  by (simp add: stat_def start_dir_def node_at_def step_def)

definition target_size :: "string \<Rightarrow> nat" where
  "target_size p = (if p = ''.'' \<or> p = ''/'' then 0 else Suc (length p))"

lemma target_size_dirname:
  assumes "stat w p = Inl ENOENT"
  shows "target_size (dirname p) < target_size p"
proof -
  from assms have "p \<noteq> ''.''" "p \<noteq> ''/''"
    using stat_dot [of w] stat_root [of w] by auto
  then have "target_size p = Suc (length p)" by (simp add: target_size_def)
  moreover have "target_size (dirname p) \<le> length p"
    using dirname_shorter [of p] by (auto simp: target_size_def)
  ultimately show ?thesis by simp
qed

text \<open>\<open>if (strlen(path) == 0) path = ROOT_DIR;\<close>\<close>

definition target_path :: "string \<Rightarrow> string" where
  "target_path p = (if p = [] then ''.'' else p)"

text \<open>
  \<open>CreateTarget\<close>. The path is \<open>None\<close> for \<open>NULL\<close>. The result is \<open>Inl\<close> where the
  program exits (a failed \<open>CHECK_CALL\<close>), else the value returned (0 or -1) and the world
  after the call, \<open>errno\<close> included.
\<close>

function CreateTarget :: "world \<Rightarrow> string option \<Rightarrow> bool \<Rightarrow> error + int \<times> world" where
  "CreateTarget w path is_directory =
     (case path of
        None \<Rightarrow> Inr (- 1, w\<lparr>errno := EINVAL\<rparr>)
      | Some p0 \<Rightarrow>
          (case stat w (target_path p0) of
             Inr sb \<Rightarrow>
               if is_directory \<and> kind sb = Dir then Inr (0, w)
               else if \<not> is_directory \<and> kind sb = Reg then Inr (0, w)
               else Inr (- 1, w\<lparr>errno := (if is_directory then ENOTDIR else EEXIST)\<rparr>)
           | Inl e \<Rightarrow>
               if e \<noteq> ENOENT then Inr (- 1, w\<lparr>errno := e\<rparr>)
               else
                 (case CreateTarget (w\<lparr>errno := e\<rparr>) (Some (dirname (target_path p0))) True of
                    Inl x \<Rightarrow> Inl x
                  | Inr (r, w1) \<Rightarrow>
                      if r = - 1 then Inl (Fatal ''CreateTarget(dirname(strdupa(path)), true)'')
                      else if is_directory then
                        (case mkdir w1 (target_path p0) mode_0755 of
                           Inl e1 \<Rightarrow> Inl (Fatal (''cannot create '' @ target_path p0))
                         | Inr w2 \<Rightarrow> Inr (0, w2))
                      else
                        (case CreateFile w1 (target_path p0) of
                           Inl x \<Rightarrow> Inl x
                         | Inr w2 \<Rightarrow> Inr (0, w2)))))"
  by pat_completeness auto
termination
proof (relation "measure (\<lambda>(w, path, d). case path of None \<Rightarrow> 0
                            | Some p \<Rightarrow> target_size (target_path p))")
  show "wf (measure (\<lambda>(w, path, d). case path of None \<Rightarrow> 0
                            | Some p \<Rightarrow> target_size (target_path p)))"
    by simp
next
  fix w :: world and path :: "string option" and is_directory :: bool and p0 e
  assume "path = Some p0" and s: "stat w (target_path p0) = Inl e" and e: "\<not> e \<noteq> ENOENT"
  have "target_path (dirname (target_path p0)) = dirname (target_path p0)"
    by (simp add: target_path_def dirname_not_empty)
  moreover have "target_size (dirname (target_path p0)) < target_size (target_path p0)"
    using s e by (intro target_size_dirname [of w]) simp
  ultimately show "((w\<lparr>errno := e\<rparr>, Some (dirname (target_path p0)), True),
           (w, path, is_directory))
          \<in> measure (\<lambda>(w, path, d). case path of None \<Rightarrow> 0
                            | Some p \<Rightarrow> target_size (target_path p))"
    using \<open>path = Some p0\<close> by simp
qed

declare CreateTarget.simps [simp del]

section \<open>Command line options (ParseCommandLine)\<close>

text \<open>
  \<open>struct Options\<close>. A \<open>char *\<close> is a \<open>string option\<close>, \<open>None\<close> for \<open>NULL\<close>; the
  arrays are lists as long as their allocation. \<open>main\<close> allocates the three mount arrays
  and \<open>create_dirs\<close> with \<open>calloc(argc, ...)\<close> and sets \<open>mount_map_sizes = argc\<close>.
\<close>

record Options =
  stdout_path :: "string option"
  stderr_path :: "string option"
  args :: "string list option"
  sandbox_root :: "string option"
  working_dir :: "string option"
  mount_sources :: "string option list"
  mount_targets :: "string option list"
  mount_rw :: "bool list"
  mount_map_sizes :: nat
  num_mounts :: nat
  create_dirs :: "string option list"
  num_create_dirs :: nat
  uid :: "32 word"
  gid :: "32 word"
  create_netns :: int
  host_name :: "string option"

definition kNobodyUid :: "32 word" where "kNobodyUid = 65534"
definition kNobodyGid :: "32 word" where "kNobodyGid = 65534"

text \<open>The options as \<open>main\<close> sets them up before parsing.\<close>

definition initial_options :: "nat \<Rightarrow> Options" where
  "initial_options argc =
     \<lparr>stdout_path = None, stderr_path = None, args = None, sandbox_root = None,
      working_dir = None,
      mount_sources = replicate argc None,
      mount_targets = replicate argc None,
      mount_rw = replicate argc False,
      mount_map_sizes = argc,
      num_mounts = 0,
      create_dirs = replicate argc None,
      num_create_dirs = 0,
      uid = kNobodyUid, gid = kNobodyGid, create_netns = 0, host_name = None\<rparr>"

text \<open>
  The state the parser works on: the options, the global \<open>global_debug\<close> and getopt's
  global \<open>optind\<close>.
\<close>

record parser =
  opt :: Options
  global_debug :: bool
  optind :: nat

text \<open>
  \<open>opt->num_mounts >= opt->mount_map_sizes - 1\<close> is compared in \<open>size_t\<close>: with
  \<open>mount_map_sizes = 0\<close> the right side wraps to \<open>2^64 - 1\<close>.
\<close>

definition mount_map_full :: "Options \<Rightarrow> bool" where
  "mount_map_full o1 =
     (if mount_map_sizes o1 = 0 then num_mounts o1 \<ge> 2 ^ 64 - 1
      else num_mounts o1 \<ge> mount_map_sizes o1 - 1)"

text \<open>
  The three \<open>realloc\<close> calls to twice \<open>mount_map_sizes\<close> elements, each followed by the
  \<open>memset\<close> that zeroes the new half. Allocation is taken to succeed.
\<close>

definition grow_mount_map :: "Options \<Rightarrow> Options" where
  "grow_mount_map o1 =
     o1\<lparr>mount_sources := mount_sources o1 @ replicate (mount_map_sizes o1) None,
        mount_targets := mount_targets o1 @ replicate (mount_map_sizes o1) None,
        mount_rw := mount_rw o1 @ replicate (mount_map_sizes o1) False,
        mount_map_sizes := mount_map_sizes o1 * 2\<rparr>"

text \<open>
  \<open>AddMountSource\<close>. An index outside an array is \<open>MemFault\<close>. The first step closes a
  mapping whose source has no target yet; the second opens a new one.
\<close>

definition close_pending_mount :: "Options \<Rightarrow> error + Options" where
  "close_pending_mount o1 =
     (if num_mounts o1 \<ge> length (mount_sources o1) then Inl MemFault
      else if mount_sources o1 ! num_mounts o1 \<noteq> None then
        (if num_mounts o1 \<ge> length (mount_targets o1) \<or> num_mounts o1 \<ge> length (mount_rw o1)
         then Inl MemFault
         else Inr (o1\<lparr>mount_targets :=
                          (mount_targets o1)[num_mounts o1 := mount_sources o1 ! num_mounts o1],
                        mount_rw := (mount_rw o1)[num_mounts o1 := False],
                        num_mounts := num_mounts o1 + 1\<rparr>))
      else Inr o1)"

definition AddMountSource :: "string option \<Rightarrow> Options \<Rightarrow> error + Options" where
  "AddMountSource source o1 =
     (case close_pending_mount o1 of
        Inl e \<Rightarrow> Inl e
      | Inr o2 \<Rightarrow>
          (case source of
             None \<Rightarrow> Inr o2
           | Some s \<Rightarrow>
               (let o3 = (if mount_map_full o2 then grow_mount_map o2 else o2)
                in if num_mounts o3 \<ge> length (mount_sources o3) then Inl MemFault
                   else Inr (o3\<lparr>mount_sources :=
                                    (mount_sources o3)[num_mounts o3 := Some s]\<rparr>))))"

text \<open>\<open>optarg[0] != '/'\<close>, for an \<open>optarg\<close> that may be the empty string.\<close>

definition not_absolute :: "string \<Rightarrow> bool" where
  "not_absolute optarg = (case optarg of [] \<Rightarrow> True | c # _ \<Rightarrow> c \<noteq> CHR ''/'')"

text \<open>The target of the pending source, set by \<open>-m\<close> (read-only) and \<open>-w\<close>.\<close>

definition set_mount_target :: "bool \<Rightarrow> string \<Rightarrow> string \<Rightarrow> Options \<Rightarrow> error + Options" where
  "set_mount_target rw msg optarg o1 =
     (if num_mounts o1 \<ge> length (mount_sources o1) then Inl MemFault
      else if mount_sources o1 ! num_mounts o1 = None then Inl (UsageError msg)
      else if num_mounts o1 \<ge> length (mount_rw o1) \<or> num_mounts o1 \<ge> length (mount_targets o1)
      then Inl MemFault
      else Inr (o1\<lparr>mount_rw := (mount_rw o1)[num_mounts o1 := rw],
                     mount_targets := (mount_targets o1)[num_mounts o1 := Some optarg],
                     num_mounts := num_mounts o1 + 1\<rparr>))"

text \<open>
  The body of the \<open>switch\<close> for one option that \<open>getopt\<close> returned: \<open>c\<close> is the option
  character and \<open>optarg\<close> its argument. \<open>getuid\<close> and \<open>getgid\<close> are the process's real
  ids. A \<open>-S\<close> with the empty string reads \<open>sandbox_root[-1]\<close>.
\<close>

definition handle_option ::
  "32 word \<Rightarrow> 32 word \<Rightarrow> char \<Rightarrow> string \<Rightarrow> parser \<Rightarrow> error + parser" where
  "handle_option getuid getgid c optarg st =
     (let o1 = opt st in
      if c = CHR ''C'' then Inl ProbeExit
      else if c = CHR ''S'' then
        (if sandbox_root o1 = None then
           (if optarg = [] then Inl MemFault
            else Inr (st\<lparr>opt := o1\<lparr>sandbox_root :=
                     Some (if last optarg = CHR ''/'' then butlast optarg else optarg)\<rparr>\<rparr>))
         else Inl (UsageError ''Multiple sandbox roots (-S) specified, expected one.''))
      else if c = CHR ''W'' then
        (if working_dir o1 = None then Inr (st\<lparr>opt := o1\<lparr>working_dir := Some optarg\<rparr>\<rparr>)
         else Inl (UsageError
                ''Multiple working directories (-W) specified, expected at most one.''))
      else if c = CHR ''d'' then
        (if not_absolute optarg
         then Inl (UsageError ''The -d option must be used with absolute paths only.'')
         else if num_create_dirs o1 \<ge> length (create_dirs o1) then Inl MemFault
         else Inr (st\<lparr>opt := o1\<lparr>create_dirs := (create_dirs o1)[num_create_dirs o1 := Some optarg],
                                   num_create_dirs := num_create_dirs o1 + 1\<rparr>\<rparr>))
      else if c = CHR ''i'' then Inr (st\<lparr>opt := o1\<lparr>uid := getuid, gid := getgid\<rparr>\<rparr>)
      else if c = CHR ''M'' then
        (if not_absolute optarg
         then Inl (UsageError ''The -M option must be used with absolute paths only.'')
         else (case AddMountSource (Some optarg) o1 of
                 Inl e \<Rightarrow> Inl e
               | Inr o2 \<Rightarrow> Inr (st\<lparr>opt := o2\<rparr>)))
      else if c = CHR ''m'' then
        (if not_absolute optarg
         then Inl (UsageError ''The -m option must be used with absolute paths only.'')
         else (case set_mount_target False ''The -m option must be preceded by an -M option.''
                      optarg o1 of
                 Inl e \<Rightarrow> Inl e
               | Inr o2 \<Rightarrow> Inr (st\<lparr>opt := o2\<rparr>)))
      else if c = CHR ''w'' then
        (if not_absolute optarg
         then Inl (UsageError ''The -w option must be used with absolute paths only.'')
         else (case set_mount_target True ''The -w option must be preceded by an -M option.''
                      optarg o1 of
                 Inl e \<Rightarrow> Inl e
               | Inr o2 \<Rightarrow> Inr (st\<lparr>opt := o2\<rparr>)))
      else if c = CHR ''n'' then Inr (st\<lparr>opt := o1\<lparr>create_netns := 1\<rparr>\<rparr>)
      else if c = CHR ''r'' then Inr (st\<lparr>opt := o1\<lparr>uid := 0, gid := 0\<rparr>\<rparr>)
      else if c = CHR ''H'' then Inr (st\<lparr>opt := o1\<lparr>host_name := Some optarg\<rparr>\<rparr>)
      else if c = CHR ''D'' then Inr (st\<lparr>global_debug := True\<rparr>)
      else if c = CHR ''l'' then
        (if stdout_path o1 = None then Inr (st\<lparr>opt := o1\<lparr>stdout_path := Some optarg\<rparr>\<rparr>)
         else Inl (UsageError ''Cannot redirect stdout to more than one destination.''))
      else if c = CHR ''L'' then
        (if stderr_path o1 = None then Inr (st\<lparr>opt := o1\<lparr>stderr_path := Some optarg\<rparr>\<rparr>)
         else Inl (UsageError ''Cannot redirect stderr to more than one destination.''))
      else if c = CHR ''?'' then Inl (UsageError ''Unrecognized argument'')
      else if c = CHR '':'' then Inl (UsageError ''Flag requires an argument'')
      else Inr st)"

text \<open>
  The \<open>while ((c = getopt(...)) != -1)\<close> loop over the options that \<open>getopt\<close> returns,
  each with its \<open>optarg\<close>, in the order it returns them.
\<close>

fun parse_options ::
  "32 word \<Rightarrow> 32 word \<Rightarrow> (char \<times> string) list \<Rightarrow> parser \<Rightarrow> error + parser" where
  "parse_options getuid getgid [] st = Inr st"
| "parse_options getuid getgid ((c, optarg) # rest) st =
     (case handle_option getuid getgid c optarg st of
        Inl e \<Rightarrow> Inl e
      | Inr st' \<Rightarrow> parse_options getuid getgid rest st')"

text \<open>The loop followed by \<open>AddMountSource(NULL, opt)\<close>, which closes a pending source.\<close>

definition parse_flags ::
  "32 word \<Rightarrow> 32 word \<Rightarrow> (char \<times> string) list \<Rightarrow> parser \<Rightarrow> error + parser" where
  "parse_flags getuid getgid found st =
     (case parse_options getuid getgid found st of
        Inl e \<Rightarrow> Inl e
      | Inr st1 \<Rightarrow>
          (case AddMountSource None (opt st1) of
             Inl e \<Rightarrow> Inl e
           | Inr o2 \<Rightarrow> Inr (st1\<lparr>opt := o2\<rparr>)))"

text \<open>
  The mount entries as \<open>SetupDirectories\<close> reads them: index \<open>i\<close> below \<open>num_mounts\<close> of
  the three arrays.
\<close>

definition mount_entries :: "Options \<Rightarrow> (string option \<times> string option \<times> bool) list" where
  "mount_entries o1 =
     zip (take (num_mounts o1) (mount_sources o1))
       (zip (take (num_mounts o1) (mount_targets o1)) (take (num_mounts o1) (mount_rw o1)))"

subsection \<open>The mount-entry state machine of the specification\<close>

text \<open>
  The two-state machine as the specification words it; \<open>None\<close> is the usage error. An
  emitted entry is (source, target, rw).
\<close>

datatype mount_state = Empty | SourcePending string

datatype mount_flag = Flag_M string | Flag_m string | Flag_w string

fun machine_step ::
  "mount_state \<Rightarrow> mount_flag \<Rightarrow> ((string \<times> string \<times> bool) list \<times> mount_state) option" where
  "machine_step Empty (Flag_M s) = Some ([], SourcePending s)"
| "machine_step (SourcePending s) (Flag_M s') = Some ([(s, s, False)], SourcePending s')"
| "machine_step (SourcePending s) (Flag_m t) = Some ([(s, t, False)], Empty)"
| "machine_step (SourcePending s) (Flag_w t) = Some ([(s, t, True)], Empty)"
| "machine_step Empty (Flag_m t) = None"
| "machine_step Empty (Flag_w t) = None"

fun machine_run :: "mount_state \<Rightarrow> mount_flag list \<Rightarrow> (string \<times> string \<times> bool) list option" where
  "machine_run Empty [] = Some []"
| "machine_run (SourcePending s) [] = Some [(s, s, False)]"
| "machine_run st (f # fs) =
     (case machine_step st f of
        None \<Rightarrow> None
      | Some (out, st') \<Rightarrow>
          (case machine_run st' fs of None \<Rightarrow> None | Some later \<Rightarrow> Some (out @ later)))"

text \<open>A flag of the machine as \<open>getopt\<close> returns it, and its argument.\<close>

fun flag_found :: "mount_flag \<Rightarrow> char \<times> string" where
  "flag_found (Flag_M s) = (CHR ''M'', s)"
| "flag_found (Flag_m t) = (CHR ''m'', t)"
| "flag_found (Flag_w t) = (CHR ''w'', t)"

fun flag_arg :: "mount_flag \<Rightarrow> string" where
  "flag_arg (Flag_M s) = s"
| "flag_arg (Flag_m t) = t"
| "flag_arg (Flag_w t) = t"

subsection \<open>The relation between the options and the machine\<close>

text \<open>
  What the machine emits when parsing ends or another \<open>-M\<close> arrives, the entries as the
  arrays store them, and the relation that ties the arrays to a state of the machine and
  to the entries emitted so far: the arrays are as long as \<open>mount_map_sizes\<close>, the
  slot at \<open>num_mounts\<close> holds the pending source (with one more slot free behind it)
  or \<open>NULL\<close>, every later slot is \<open>NULL\<close>, and the slots below hold the entries.
\<close>

fun pending_out :: "mount_state \<Rightarrow> (string \<times> string \<times> bool) list" where
  "pending_out Empty = []"
| "pending_out (SourcePending s) = [(s, s, False)]"

definition stored :: "(string \<times> string \<times> bool) list \<Rightarrow> (string option \<times> string option \<times> bool) list" where
  "stored out = map (\<lambda>(s, t, rw). (Some s, Some t, rw)) out"

definition mount_inv :: "Options \<Rightarrow> mount_state \<Rightarrow> (string \<times> string \<times> bool) list \<Rightarrow> bool" where
  "mount_inv o1 st out \<longleftrightarrow>
     length (mount_sources o1) = mount_map_sizes o1 \<and>
     length (mount_targets o1) = mount_map_sizes o1 \<and>
     length (mount_rw o1) = mount_map_sizes o1 \<and>
     num_mounts o1 < mount_map_sizes o1 \<and>
     (\<forall>i. num_mounts o1 < i \<and> i < mount_map_sizes o1 \<longrightarrow> mount_sources o1 ! i = None) \<and>
     (case st of
        Empty \<Rightarrow> mount_sources o1 ! num_mounts o1 = None
      | SourcePending s \<Rightarrow>
          mount_sources o1 ! num_mounts o1 = Some s \<and> num_mounts o1 + 1 < mount_map_sizes o1) \<and>
     mount_entries o1 = stored out"

section \<open>Identity mapping (SetupUserNamespace)\<close>

text \<open>
  \<open>%d\<close> of \<open>printf\<close> for a 32-bit argument: the value read as a signed \<open>int\<close>, in
  decimal. \<open>uid_t\<close> is unsigned, so an id of \<open>2^31\<close> or more prints as a negative number.
\<close>

fun dec :: "nat \<Rightarrow> string" where
  "dec n = (if n < 10 then [''0123456789'' ! n]
            else dec (n div 10) @ [''0123456789'' ! (n mod 10)])"

declare dec.simps [simp del]

definition printf_d :: "32 word \<Rightarrow> string" where
  "printf_d v = (if sint v < 0 then CHR ''-'' # dec (nat (- sint v)) else dec (nat (sint v)))"

text \<open>
  What can happen inside \<open>WriteFile\<close>: \<open>fopen\<close> returns \<open>NULL\<close>, \<open>vfprintf\<close> fails
  (glibc returns -1), \<open>fclose\<close> fails (\<open>EOF\<close>, which is -1), or the text is written. A
  failing call sets \<open>errno\<close>. \<open>WriteFile\<close> gives its return value and \<open>errno\<close> after it.
\<close>

datatype write_outcome = Written | FopenFails errno | VfprintfFails errno | FcloseFails errno

fun WriteFile :: "write_outcome \<Rightarrow> errno \<Rightarrow> int \<times> errno" where
  "WriteFile Written e0 = (0, e0)"
| "WriteFile (FopenFails e) e0 = (- 1, e)"
| "WriteFile (VfprintfFails e) e0 = (- 1, e)"
| "WriteFile (FcloseFails e) e0 = (- 1, e)"

text \<open>
  The kernel's side: what becomes of writing a text to a file of \<open>/proc/self\<close>, and the
  results of \<open>setresuid\<close> and \<open>setresgid\<close> (\<open>None\<close> for success).
\<close>

record id_kernel =
  write_file :: "string \<Rightarrow> string \<Rightarrow> write_outcome"
  setresuid_result :: "32 word \<Rightarrow> 32 word \<Rightarrow> 32 word \<Rightarrow> errno option"
  setresgid_result :: "32 word \<Rightarrow> 32 word \<Rightarrow> 32 word \<Rightarrow> errno option"

text \<open>The calls \<open>SetupUserNamespace\<close> makes, in the order it makes them.\<close>

datatype id_call =
    WriteFileCall string string
  | SetresuidCall "32 word" "32 word" "32 word"
  | SetresgidCall "32 word" "32 word" "32 word"

definition map_text :: "32 word \<Rightarrow> 32 word \<Rightarrow> string" where
  "map_text inner outer = printf_d inner @ '' '' @ printf_d outer @ '' 1'' @ [CHR 0x0A]"

text \<open>
  \<open>SetupUserNamespace\<close>. \<open>outer_uid\<close> and \<open>outer_gid\<close> are the parameters \<open>uid\<close> and
  \<open>gid\<close> of the C function, the ids outside the namespace; \<open>e0\<close> is \<open>errno\<close> on entry. The result is how the function ends
  (\<open>Inl\<close> for \<open>exit(EXIT_FAILURE)\<close>) and the calls made up to there.
\<close>

definition SetupUserNamespace ::
  "id_kernel \<Rightarrow> errno \<Rightarrow> 32 word \<Rightarrow> 32 word \<Rightarrow> 32 word \<Rightarrow> 32 word \<Rightarrow>
   (error + unit) \<times> id_call list" where
  "SetupUserNamespace k e0 outer_uid outer_gid new_uid new_gid =
     (case WriteFile (write_file k ''/proc/self/setgroups'' ''deny'') e0 of
        (r, e1) \<Rightarrow>
          if r < 0 \<and> e1 \<noteq> ENOENT
          then (Inl (Fatal ''WriteFile(/proc/self/setgroups, deny)''),
                [WriteFileCall ''/proc/self/setgroups'' ''deny''])
          else
            (case WriteFile (write_file k ''/proc/self/uid_map'' (map_text new_uid outer_uid)) e1 of
               (r2, e2) \<Rightarrow>
                 if r2 = - 1
                 then (Inl (Fatal ''WriteFile(/proc/self/uid_map)''),
                       [WriteFileCall ''/proc/self/setgroups'' ''deny'',
                        WriteFileCall ''/proc/self/uid_map'' (map_text new_uid outer_uid)])
                 else
                   (case WriteFile (write_file k ''/proc/self/gid_map'' (map_text new_gid outer_gid)) e2 of
                      (r3, e3) \<Rightarrow>
                        if r3 = - 1
                        then (Inl (Fatal ''WriteFile(/proc/self/gid_map)''),
                              [WriteFileCall ''/proc/self/setgroups'' ''deny'',
                               WriteFileCall ''/proc/self/uid_map'' (map_text new_uid outer_uid),
                               WriteFileCall ''/proc/self/gid_map'' (map_text new_gid outer_gid)])
                        else if setresuid_result k new_uid new_uid new_uid \<noteq> None
                        then (Inl (Fatal ''setresuid(new_uid, new_uid, new_uid)''),
                              [WriteFileCall ''/proc/self/setgroups'' ''deny'',
                               WriteFileCall ''/proc/self/uid_map'' (map_text new_uid outer_uid),
                               WriteFileCall ''/proc/self/gid_map'' (map_text new_gid outer_gid),
                               SetresuidCall new_uid new_uid new_uid])
                        else if setresgid_result k new_gid new_gid new_gid \<noteq> None
                        then (Inl (Fatal ''setresgid(new_gid, new_gid, new_gid)''),
                              [WriteFileCall ''/proc/self/setgroups'' ''deny'',
                               WriteFileCall ''/proc/self/uid_map'' (map_text new_uid outer_uid),
                               WriteFileCall ''/proc/self/gid_map'' (map_text new_gid outer_gid),
                               SetresuidCall new_uid new_uid new_uid,
                               SetresgidCall new_gid new_gid new_gid])
                        else (Inr (),
                              [WriteFileCall ''/proc/self/setgroups'' ''deny'',
                               WriteFileCall ''/proc/self/uid_map'' (map_text new_uid outer_uid),
                               WriteFileCall ''/proc/self/gid_map'' (map_text new_gid outer_gid),
                               SetresuidCall new_uid new_uid new_uid,
                               SetresgidCall new_gid new_gid new_gid]))))"

text \<open>The error a write failed with, and whether the first write lets the function go on.\<close>

fun write_error :: "write_outcome \<Rightarrow> errno option" where
  "write_error Written = None"
| "write_error (FopenFails e) = Some e"
| "write_error (VfprintfFails e) = Some e"
| "write_error (FcloseFails e) = Some e"

definition is_fatal :: "error + unit \<Rightarrow> bool" where
  "is_fatal r = (case r of Inl (Fatal msg) \<Rightarrow> True | _ \<Rightarrow> False)"

section \<open>User mounts (the mount loop of SetupDirectories)\<close>

text \<open>
  The kernel's side of the loop: the result of the \<open>mount\<close> call number \<open>n\<close> of the loop
  (counted from 0; \<open>None\<close> for success), what the file system looks like after a mount
  that succeeded, the entries of \<open>/proc/self/mounts\<close> after \<open>n\<close> calls (\<open>None\<close> when the
  file cannot be opened), and what \<open>S_ISDIR\<close> gives for a \<open>struct stat\<close> that \<open>stat\<close> left
  unfilled (the loop does not test \<open>stat\<close>'s result).
\<close>

record mount_kernel =
  mount_result :: "nat \<Rightarrow> string \<Rightarrow> string \<Rightarrow> 64 word \<Rightarrow> errno option"
  mount_effect :: "string \<Rightarrow> string \<Rightarrow> 64 word \<Rightarrow> world \<Rightarrow> world"
  proc_mounts :: "nat \<Rightarrow> mntent list option"
  unfilled_isdir :: bool

text \<open>What the loop does to the outside: \<open>mount\<close> calls, and warnings on \<open>stderr\<close>.\<close>

datatype dir_event = MountCall string string "64 word" | RemountWarning string errno

record dir_state =
  fs :: world
  mount_calls :: nat
  events :: "dir_event list"

definition bind_flags :: "64 word" where
  "bind_flags = MS_REC OR MS_BIND"

definition remount_flags :: "64 word \<Rightarrow> 64 word" where
  "remount_flags mnt_flags = mnt_flags OR MS_REC OR MS_BIND OR MS_REMOUNT OR MS_RDONLY"

text \<open>The state after a \<open>mount\<close> call that succeeded, and after one that failed.\<close>

definition mounted :: "mount_kernel \<Rightarrow> string \<Rightarrow> string \<Rightarrow> 64 word \<Rightarrow> dir_state \<Rightarrow> dir_state" where
  "mounted k source target flags st =
     st\<lparr>fs := mount_effect k source target flags (fs st),
        mount_calls := mount_calls st + 1,
        events := events st @ [MountCall source target flags]\<rparr>"

definition remount_failed :: "string \<Rightarrow> string \<Rightarrow> 64 word \<Rightarrow> errno \<Rightarrow> dir_state \<Rightarrow> dir_state" where
  "remount_failed source target flags e st =
     st\<lparr>fs := (fs st)\<lparr>errno := e\<rparr>,
        mount_calls := mount_calls st + 1,
        events := events st @ [MountCall source target flags, RemountWarning target e]\<rparr>"

text \<open>
  \<open>struct stat sb; stat(opt->mount_sources[i], &sb);\<close> and the later
  \<open>S_ISDIR(sb.st_mode)\<close>: the world after the call, which sets \<open>errno\<close> when it fails,
  and whether the source counts as a directory.
\<close>

definition source_checked :: "dir_state \<Rightarrow> string \<Rightarrow> world" where
  "source_checked st source =
     (case stat (fs st) source of Inr sb \<Rightarrow> fs st | Inl e \<Rightarrow> (fs st)\<lparr>errno := e\<rparr>)"

definition source_isdir :: "mount_kernel \<Rightarrow> dir_state \<Rightarrow> string \<Rightarrow> bool" where
  "source_isdir k st source =
     (case stat (fs st) source of Inr sb \<Rightarrow> kind sb = Dir | Inl e \<Rightarrow> unfilled_isdir k)"

text \<open>
  The body of the loop for the entry \<open>i\<close>: \<open>mount_sources[i]\<close>, \<open>mount_targets[i]\<close> and
  \<open>mount_rw[i]\<close>. \<open>root\<close> is \<open>opt->sandbox_root\<close>. A \<open>NULL\<close> source or target is
  \<open>MemFault\<close>.
\<close>

definition mount_entry ::
  "mount_kernel \<Rightarrow> string \<Rightarrow> string option \<times> string option \<times> bool \<Rightarrow> dir_state \<Rightarrow>
   error + dir_state" where
  "mount_entry k root entry st =
     (case entry of
        (Some source, Some target, rw) \<Rightarrow>
          (case CreateTarget (source_checked st source) (Some (root @ target))
                  (source_isdir k st source) of
             Inl x \<Rightarrow> Inl x
           | Inr (r, w1) \<Rightarrow>
               if r = - 1
               then Inl (Fatal ''CreateTarget(full_sandbox_path, S_ISDIR(sb.st_mode))'')
               else
                 (case mount_result k (mount_calls st) source (root @ target) bind_flags of
                    Some e \<Rightarrow> Inl (Fatal (''cannot mount '' @ source @ '' on '' @ root @ target))
                  | None \<Rightarrow>
                      if \<not> rw then
                        (case GetMountFlags (proc_mounts k (mount_calls st + 1)) (root @ target) of
                           Inl x \<Rightarrow> Inl x
                         | Inr mnt_flags \<Rightarrow>
                             (case mount_result k (mount_calls st + 1) source (root @ target)
                                     (remount_flags mnt_flags) of
                                Some e \<Rightarrow>
                                  Inr (remount_failed source (root @ target) (remount_flags mnt_flags) e
                                         (mounted k source (root @ target) bind_flags (st\<lparr>fs := w1\<rparr>)))
                              | None \<Rightarrow>
                                  Inr (mounted k source (root @ target) (remount_flags mnt_flags)
                                         (mounted k source (root @ target) bind_flags (st\<lparr>fs := w1\<rparr>)))))
                      else Inr (mounted k source (root @ target) bind_flags (st\<lparr>fs := w1\<rparr>))))
      | _ \<Rightarrow> Inl MemFault)"

text \<open>\<open>for (int i = 0; i < opt->num_mounts; i++)\<close>, over the entries in array order.\<close>

fun mount_all ::
  "mount_kernel \<Rightarrow> string \<Rightarrow> (string option \<times> string option \<times> bool) list \<Rightarrow> dir_state \<Rightarrow>
   error + dir_state" where
  "mount_all k root [] st = Inr st"
| "mount_all k root (entry # rest) st =
     (case mount_entry k root entry st of
        Inl x \<Rightarrow> Inl x
      | Inr st' \<Rightarrow> mount_all k root rest st')"

section \<open>Argument files (ParseOptionsFile)\<close>

definition NUL :: char where "NUL = CHR 0x00"
definition NL :: char where "NL = CHR 0x0A"

text \<open>
  \<open>fgets(argument, size, f)\<close> on the rest of the file: it reads at most \<open>size - 1\<close>
  bytes and stops behind the first newline. It returns \<open>NULL\<close> (here \<open>None\<close>) at the end
  of the file, and else the bytes read and what is left of the file. Read errors are
  left out.
\<close>

fun fgets_line :: "nat \<Rightarrow> string \<Rightarrow> string \<times> string" where
  "fgets_line 0 s = ([], s)"
| "fgets_line (Suc n) [] = ([], [])"
| "fgets_line (Suc n) (c # s) =
     (if c = NL then ([c], s) else (case fgets_line n s of (l, r) \<Rightarrow> (c # l, r)))"

definition fgets :: "nat \<Rightarrow> string \<Rightarrow> (string \<times> string) option" where
  "fgets n s = (if s = [] then None else Some (fgets_line (n - 1) s))"

text \<open>The C string in a buffer: the bytes before the first NUL.\<close>

definition cstring :: "string \<Rightarrow> string" where
  "cstring b = takeWhile (\<lambda>c. c \<noteq> NUL) b"

lemma fgets_line_shorter:
  "0 < n \<Longrightarrow> s \<noteq> [] \<Longrightarrow> length (snd (fgets_line n s)) < length s"
proof (induction n s rule: fgets_line.induct)
  case (3 n c s)
  show ?case
  proof (cases "c = NL")
    case True
    then show ?thesis by simp
  next
    case False
    show ?thesis
    proof (cases "n = 0 \<or> s = []")
      case True
      then show ?thesis using False by (cases n) auto
    next
      case False
      with 3 \<open>c \<noteq> NL\<close> have "length (snd (fgets_line n s)) < length s" by simp
      moreover obtain l r where "fgets_line n s = (l, r)" by (cases "fgets_line n s")
      ultimately show ?thesis using \<open>c \<noteq> NL\<close> by simp
    qed
  qed
qed simp_all

text \<open>
  The \<open>while (!done)\<close> loop of \<open>ParseOptionsFile\<close>: \<open>stream\<close> is what is left of the
  file and \<open>sub_argv\<close> the arguments collected so far. The buffer has 8192 bytes.
\<close>

function read_arguments :: "string \<Rightarrow> string list \<Rightarrow> error + string list" where
  "read_arguments stream sub_argv =
     (case fgets 8192 stream of
        None \<Rightarrow> Inr sub_argv
      | Some (argument, rest) \<Rightarrow>
          if length (cstring argument) = 0 then read_arguments rest sub_argv
          else if length (cstring argument) = 8192
          then Inl (Fatal ''argument from file is too long'')
          else if cstring argument ! (length (cstring argument) - 1) = NL
          then read_arguments rest
                 (sub_argv @ [take (length (cstring argument) - 1) (cstring argument)])
          else Inr (sub_argv @ [cstring argument]))"
  by pat_completeness auto
termination
proof (relation "measure (\<lambda>(stream, sub_argv). length stream)")
  show "wf (measure (\<lambda>(stream, sub_argv). length stream))" by simp
next
  fix stream :: string and sub_argv :: "string list" and x2 argument rest
  assume "fgets 8192 stream = Some x2" "(argument, rest) = x2"
  then have "stream \<noteq> []" "rest = snd (fgets_line 8191 stream)"
    by (auto simp: fgets_def split: if_splits)
  then have "length rest < length stream"
    using fgets_line_shorter [of 8191 stream] by simp
  then show "((rest, sub_argv), (stream, sub_argv)) \<in> measure (\<lambda>(stream, sub_argv). length stream)"
    by simp
next
  fix stream :: string and sub_argv :: "string list" and x2 argument rest
  assume "fgets 8192 stream = Some x2" "(argument, rest) = x2"
  then have "stream \<noteq> []" "rest = snd (fgets_line 8191 stream)"
    by (auto simp: fgets_def split: if_splits)
  then have "length rest < length stream"
    using fgets_line_shorter [of 8191 stream] by simp
  then show "((rest, sub_argv @ [take (length (cstring argument) - 1) (cstring argument)]),
              (stream, sub_argv)) \<in> measure (\<lambda>(stream, sub_argv). length stream)"
    by simp
qed

declare read_arguments.simps [simp del]

text \<open>
  The first half of \<open>ParseOptionsFile\<close>: the file is opened (\<open>None\<close> when \<open>fopen\<close>
  fails), \<open>sub_argv[0]\<close> is the empty string, and the loop adds the arguments.
\<close>

definition ParseOptionsFile_argv :: "string option \<Rightarrow> error + string list" where
  "ParseOptionsFile_argv options_file =
     (case options_file of
        None \<Rightarrow> Inl (Fatal ''opening argument file failed'')
      | Some contents \<Rightarrow> read_arguments contents [[]])"

text \<open>
  The newline separated lines of a text, as the specification names them: a newline ends
  a line, and a last line needs none.
\<close>

fun file_lines :: "string \<Rightarrow> string list" where
  "file_lines [] = []"
| "file_lines (c # cs) =
     (if c = NL then [] # file_lines cs
      else (case file_lines cs of [] \<Rightarrow> [[c]] | l # ls \<Rightarrow> (c # l) # ls))"

section \<open>The parser (ParseCommandLine)\<close>

text \<open>
  What a run of \<open>getopt\<close> calls up to the first -1 gives for an argument vector and a
  starting \<open>optind\<close> (1 at program start, 0 to make \<open>getopt\<close> start over): the options
  found with their arguments, \<open>optind\<close> at the end, and the argument vector, which GNU
  \<open>getopt\<close> may have permuted. \<open>getopt\<close> is libc's; the parser is modelled for any such
  function.
\<close>

record getopt_scan =
  found :: "(char \<times> string) list"
  next_optind :: nat
  permuted :: "string list"

record parse_env =
  getopt :: "string list \<Rightarrow> nat \<Rightarrow> getopt_scan"
  fopen :: "string \<Rightarrow> string option"
  getuid :: "32 word"
  getgid :: "32 word"

text \<open>\<open>argv[optind][0] == '@'\<close>\<close>

definition is_file_argument :: "string \<Rightarrow> bool" where
  "is_file_argument a = (case a of [] \<Rightarrow> False | c # _ \<Rightarrow> c = CHR ''@'')"

text \<open>
  \<open>ParseCommandLine\<close>, and its loop over the \<open>@FILE\<close> arguments with the call of
  \<open>ParseOptionsFile\<close> in it. A file can name itself, and then the C recursion does not
  end: \<open>fuel\<close> bounds the nesting of files, and \<open>None\<close> is the result when it runs out.
\<close>

function ParseCommandLine ::
    "parse_env \<Rightarrow> nat \<Rightarrow> string list \<Rightarrow> parser \<Rightarrow> (error + parser) option"
  and argument_files ::
    "parse_env \<Rightarrow> nat \<Rightarrow> string list \<Rightarrow> parser \<Rightarrow> (error + parser) option"
where
  "ParseCommandLine env fuel argv st =
     (case parse_flags (getuid env) (getgid env) (found (getopt env argv (optind st)))
             (st\<lparr>optind := next_optind (getopt env argv (optind st))\<rparr>) of
        Inl e \<Rightarrow> Some (Inl e)
      | Inr st1 \<Rightarrow>
          (case argument_files env fuel (permuted (getopt env argv (optind st))) st1 of
             None \<Rightarrow> None
           | Some (Inl e) \<Rightarrow> Some (Inl e)
           | Some (Inr st2) \<Rightarrow>
               if length argv > optind st2 then
                 (if args (opt st2) = None
                  then Some (Inr (st2\<lparr>opt := (opt st2)
                         \<lparr>args := Some (drop (optind st2) (permuted (getopt env argv (optind st))))\<rparr>\<rparr>))
                  else Some (Inl (UsageError ''Merging commands not supported.'')))
               else Some (Inr st2)))"
| "argument_files env fuel argv st =
     (if optind st < length argv \<and> is_file_argument (argv ! optind st) then
        (case fuel of
           0 \<Rightarrow> None
         | Suc fuel' \<Rightarrow>
             (case ParseOptionsFile_argv (fopen env (tl (argv ! optind st))) of
                Inl e \<Rightarrow> Some (Inl e)
              | Inr sub_argv \<Rightarrow>
                  (case ParseCommandLine env fuel' sub_argv (st\<lparr>optind := 0\<rparr>) of
                     None \<Rightarrow> None
                   | Some (Inl e) \<Rightarrow> Some (Inl e)
                   | Some (Inr st') \<Rightarrow>
                       argument_files env fuel argv (st'\<lparr>optind := optind st + 1\<rparr>))))
      else Some (Inr st))"
  by pat_completeness auto
termination
proof (relation "measures
    [\<lambda>x. case x of Inl (env, fuel, argv, st) \<Rightarrow> fuel | Inr (env, fuel, argv, st) \<Rightarrow> fuel,
     \<lambda>x. case x of Inl a \<Rightarrow> 1 | Inr b \<Rightarrow> 0,
     \<lambda>x. case x of Inl a \<Rightarrow> 0 | Inr (env, fuel, argv, st) \<Rightarrow> length argv - optind st]")
qed auto

declare ParseCommandLine.simps [simp del] argument_files.simps [simp del]

section \<open>Example inputs\<close>

text \<open>Concrete inputs at which the theorems below are evaluated.\<close>

definition ex_mounts :: "mntent list" where
  "ex_mounts =
     [\<lparr>mnt_fsname = ''tmpfs'', mnt_dir = ''/sandbox/tmp'', mnt_type = ''tmpfs'',
        mnt_opts = [''rw'', ''nodev'']\<rparr>,
      \<lparr>mnt_fsname = ''/dev/sda1'', mnt_dir = ''/sandbox/tmp'', mnt_type = ''ext4'',
        mnt_opts = [''rw'', ''relatime'']\<rparr>]"

definition einval19 :: "nat \<Rightarrow> errno option" where
  "einval19 k = (if k < 19 then Some EINVAL else None)"

fun sleeps :: "ns_call list \<Rightarrow> int list" where
  "sleeps [] = []"
| "sleeps (Usleep d # cs) = d # sleeps cs"
| "sleeps (Unshare f # cs) = sleeps cs"

definition empty_sandbox :: world where
  "empty_sandbox = \<lparr>nodes = Map.empty, cwd = [''sandbox''], umask = 18, errno = EPERM\<rparr>"

definition sandbox_with_a :: world where
  "sandbox_with_a = add_node (empty_sandbox\<lparr>errno := ENOENT\<rparr>) [''sandbox'', ''a'']
            \<lparr>kind = Dir, perm = mode_0755 AND NOT 18\<rparr>"

definition example_flags :: "mount_flag list" where
  "example_flags = [Flag_M ''/bin'', Flag_M ''/tmp/ws'', Flag_w ''/work'', Flag_M ''/lib'']"

definition old_kernel :: id_kernel where
  "old_kernel =
     \<lparr>write_file = (\<lambda>file text. if file = ''/proc/self/setgroups'' then FopenFails ENOENT else Written),
      setresuid_result = (\<lambda>r e s. None),
      setresgid_result = (\<lambda>r e s. None)\<rparr>"

definition strict_kernel :: id_kernel where
  "strict_kernel =
     \<lparr>write_file = (\<lambda>file text. if file = ''/proc/self/setgroups'' then FopenFails EACCES
                       else if file = ''/proc/self/uid_map'' then Written else FcloseFails EPERM),
      setresuid_result = (\<lambda>r e s. None),
      setresgid_result = (\<lambda>r e s. None)\<rparr>"

definition host_world :: world where
  "host_world =
     \<lparr>nodes = [[''bin''] \<mapsto> \<lparr>kind = Dir, perm = mode_0755\<rparr>,
               [''sandbox''] \<mapsto> \<lparr>kind = Dir, perm = mode_0755\<rparr>],
      cwd = [''sandbox''], umask = 18, errno = EPERM\<rparr>"

definition host_world_bin :: world where
  "host_world_bin = add_node (host_world\<lparr>errno := ENOENT\<rparr>) [''sandbox'', ''bin'']
            \<lparr>kind = Dir, perm = mode_0755 AND NOT 18\<rparr>"

definition refusing_kernel :: mount_kernel where
  "refusing_kernel =
     \<lparr>mount_result = (\<lambda>n source target flags. if flags = bind_flags then None else Some EPERM),
      mount_effect = (\<lambda>source target flags w. w),
      proc_mounts = (\<lambda>n. Some [\<lparr>mnt_fsname = ''/dev/sda1'', mnt_dir = ''/sandbox/bin'',
                                 mnt_type = ''ext4'', mnt_opts = [''rw'', ''nosuid'']\<rparr>]),
      unfilled_isdir = False\<rparr>"

definition start_state :: dir_state where
  "start_state = \<lparr>fs = host_world, mount_calls = 0, events = []\<rparr>"

text \<open>An example \<open>getopt\<close>: every option is a word of its own, followed by its argument.\<close>

definition takes_argument :: "char \<Rightarrow> bool" where
  "takes_argument c = (c \<in> set ''dlLmMSWwH'')"

fun simple_scan :: "string list \<Rightarrow> nat \<Rightarrow> (char \<times> string) list \<times> nat" where
  "simple_scan [] i = ([], i)"
| "simple_scan [a] i =
     (if a = ''--'' then ([], i + 1)
      else if length a = 2 \<and> hd a = CHR ''-'' then
        (if takes_argument (a ! 1) then ([(CHR '':'', [])], i + 1) else ([(a ! 1, [])], i + 1))
      else ([], i))"
| "simple_scan (a # b # rest) i =
     (if a = ''--'' then ([], i + 1)
      else if length a = 2 \<and> hd a = CHR ''-'' then
        (if takes_argument (a ! 1)
         then (case simple_scan rest (i + 2) of (f, n) \<Rightarrow> ((a ! 1, b) # f, n))
         else (case simple_scan (b # rest) (i + 1) of (f, n) \<Rightarrow> ((a ! 1, []) # f, n)))
      else ([], i))"

definition simple_getopt :: "string list \<Rightarrow> nat \<Rightarrow> getopt_scan" where
  "simple_getopt argv oi =
     (case simple_scan (drop (max 1 oi) argv) (max 1 oi) of
        (f, n) \<Rightarrow> \<lparr>found = f, next_optind = n, permuted = argv\<rparr>)"

definition blank_line_file :: string where
  "blank_line_file = ''-M'' @ [NL, NL] @ ''/bin'' @ [NL]"

definition outer_file :: string where
  "outer_file = ''-M'' @ [NL] @ ''/bin'' @ [NL] @ ''@inner'' @ [NL]"

definition inner_file :: string where
  "inner_file = ''-d'' @ [NL] @ ''/var/cache''"

definition example_env :: parse_env where
  "example_env =
     \<lparr>getopt = simple_getopt,
      fopen = [''outer'' \<mapsto> outer_file, ''inner'' \<mapsto> inner_file,
               ''blank'' \<mapsto> blank_line_file],
      getuid = 1000, getgid = 1000\<rparr>"

definition example_parser :: parser where
  "example_parser = \<lparr>opt = initial_options 5, global_debug = False, optind = 1\<rparr>"

definition example_argv :: "string list" where
  "example_argv = [''sandbox'', ''-S'', ''/tmp/sbx'', ''@outer'', ''/bin/ls'']"

section \<open>Facts about the file system\<close>

text \<open>
  Creating a node changes nothing else: paths that resolved before resolve to the same
  node afterwards, and the created path resolves to the new node.
\<close>

lemma walk_append:
  "walk w s (xs @ ys) = (case walk w s xs of Inl e \<Rightarrow> Inl e | Inr q \<Rightarrow> walk w q ys)"
  by (induction xs arbitrary: s) (auto split: option.splits)

lemma node_at_create:
  "node_at w k = None \<Longrightarrow>
   node_at (add_node w k n) p = (if p = k then Some n else node_at w p)"
  by (auto simp: node_at_def add_node_def split: if_splits)

lemma add_node_frame [simp]:
  "cwd (add_node w k n) = cwd w" "umask (add_node w k n) = umask w"
  "errno (add_node w k n) = errno w"
  by (simp_all add: add_node_def)

lemma walk_create:
  "node_at w k = None \<Longrightarrow> walk w s xs = Inr q \<Longrightarrow>
   walk (add_node w k n) s xs = Inr q"
proof (induction xs arbitrary: s)
  case Nil
  then show ?case by simp
next
  case (Cons x xs)
  from Cons.prems obtain m where m: "node_at w s = Some m" "kind m = Dir"
    and rest: "walk w (step s x) xs = Inr q"
    by (auto split: option.splits if_splits)
  from m Cons.prems(1) have "s \<noteq> k" by auto
  with m Cons.prems(1) have "node_at (add_node w k n) s = Some m"
    by (simp add: node_at_create)
  with m Cons.IH [OF Cons.prems(1) rest] show ?case by simp
qed

lemma walk_empties:
  "\<forall>x\<in>set es. x = [] \<Longrightarrow> es = [] \<or> (\<exists>n. node_at w q = Some n \<and> kind n = Dir) \<Longrightarrow>
   walk w q es = Inr q"
  by (induction es) (auto simp: step_def)

lemma create_nodeE:
  assumes "create_node w s parent name n = Inr w'"
  obtains d dn where "walk w s parent = Inr d" "node_at w d = Some dn" "kind dn = Dir"
    "name \<noteq> ''.''" "name \<noteq> ''..''" "node_at w (d @ [name]) = None"
    "w' = add_node w (d @ [name]) n"
  using assms by (auto simp: create_node_def split: sum.splits option.splits if_splits)

lemma create_node_lookup:
  assumes c: "create_node w s parent name n = Inr w'"
    and es: "\<forall>x\<in>set es. x = []" "es = [] \<or> kind n = Dir"
    and name: "name \<noteq> []"
  shows "\<exists>q. walk w' s (parent @ name # es) = Inr q \<and> node_at w' q = Some n"
proof -
  from c obtain d dn where d: "walk w s parent = Inr d" "node_at w d = Some dn" "kind dn = Dir"
    and nm: "name \<noteq> ''.''" "name \<noteq> ''..''" and free: "node_at w (d @ [name]) = None"
    and w': "w' = add_node w (d @ [name]) n"
    by (rule create_nodeE)
  have 1: "walk w' s parent = Inr d"
    unfolding w' using free d(1) by (rule walk_create)
  have 2: "node_at w' d = Some dn"
    unfolding w' using free d(2) by (simp add: node_at_create)
  have 3: "node_at w' (d @ [name]) = Some n"
    unfolding w' using free by (simp add: node_at_create)
  have 4: "walk w' (d @ [name]) es = Inr (d @ [name])"
    using es 3 by (intro walk_empties) auto
  have "walk w' s (parent @ name # es) = Inr (d @ [name])"
    using 1 2 4 d(3) nm name by (simp add: walk_append step_def)
  with 3 show ?thesis by blast
qed

lemma create_node_frame:
  "create_node w s parent name n = Inr w' \<Longrightarrow>
   cwd w' = cwd w \<and> umask w' = umask w \<and> errno w' = errno w"
  by (erule create_nodeE) simp

lemma start_dir_cwd: "cwd w' = cwd w \<Longrightarrow> start_dir w' p = start_dir w p"
  by (simp add: start_dir_def split: list.splits)

lemma split_trailing:
  "dropWhile (\<lambda>x. x = []) (rev comps) = name # rparent \<Longrightarrow>
   \<exists>es. comps = rev rparent @ name # es \<and> (\<forall>x\<in>set es. x = []) \<and> name \<noteq> []"
proof -
  assume a: "dropWhile (\<lambda>x. x = []) (rev comps) = name # rparent"
  have "rev comps = takeWhile (\<lambda>x. x = []) (rev comps) @ name # rparent"
    using a takeWhile_dropWhile_id [of "\<lambda>x. x = []" "rev comps"] by simp
  then have "rev (rev comps) = rev (takeWhile (\<lambda>x. x = []) (rev comps) @ name # rparent)"
    by (rule arg_cong)
  then have "comps = rev rparent @ name # rev (takeWhile (\<lambda>x. x = []) (rev comps))"
    by simp
  moreover have "\<forall>x\<in>set (rev (takeWhile (\<lambda>x. x = []) (rev comps))). x = []"
    by (auto dest: set_takeWhileD)
  moreover have "name \<noteq> []" using a hd_dropWhile [of "\<lambda>x. x = []" "rev comps"] by auto
  ultimately show ?thesis by blast
qed

lemma mkdir_stat:
  assumes "mkdir w p mode = Inr w'"
  shows "stat w' p = Inr \<lparr>kind = Dir, perm = mode AND NOT (umask w)\<rparr>"
proof -
  from assms obtain name rparent where p: "p \<noteq> []"
    and dw: "dropWhile (\<lambda>x. x = []) (rev (split_slash p)) = name # rparent"
    and c: "create_node w (start_dir w p) (rev rparent) name
              \<lparr>kind = Dir, perm = mode AND NOT (umask w)\<rparr> = Inr w'"
    by (auto simp: mkdir_def split: if_splits list.splits)
  from split_trailing [OF dw] obtain es where es: "split_slash p = rev rparent @ name # es"
    "\<forall>x\<in>set es. x = []" "name \<noteq> []" by blast
  from create_node_lookup [OF c es(2) _ es(3)] obtain q where
    "walk w' (start_dir w p) (rev rparent @ name # es) = Inr q"
    "node_at w' q = Some \<lparr>kind = Dir, perm = mode AND NOT (umask w)\<rparr>" by auto
  moreover have "start_dir w' p = start_dir w p"
    using create_node_frame [OF c] by (intro start_dir_cwd) simp
  ultimately show ?thesis using p es(1) by (simp add: stat_def)
qed

lemma open_excl_stat:
  assumes "open_excl w p mode = Inr w'"
  shows "stat w' p = Inr \<lparr>kind = Reg, perm = mode AND NOT (umask w)\<rparr>"
proof -
  from assms obtain name rparent where p: "p \<noteq> []"
    and dw: "rev (split_slash p) = name # rparent" and name: "name \<noteq> []"
    and c: "create_node w (start_dir w p) (rev rparent) name
              \<lparr>kind = Reg, perm = mode AND NOT (umask w)\<rparr> = Inr w'"
    by (auto simp: open_excl_def split: if_splits list.splits)
  from dw have "rev (rev (split_slash p)) = rev (name # rparent)"
    by (rule arg_cong)
  then have sp: "split_slash p = rev rparent @ name # []"
    by simp
  from create_node_lookup [OF c _ _ name, of "[]"] obtain q where
    "walk w' (start_dir w p) (rev rparent @ name # []) = Inr q"
    "node_at w' q = Some \<lparr>kind = Reg, perm = mode AND NOT (umask w)\<rparr>" by auto
  moreover have "start_dir w' p = start_dir w p"
    using create_node_frame [OF c] by (intro start_dir_cwd) simp
  ultimately show ?thesis using p sp by (simp add: stat_def)
qed

lemma create_node_stat_mono:
  assumes c: "create_node w s parent name n = Inr w'" and st: "stat w p = Inr m"
  shows "stat w' p = Inr m"
proof -
  from c obtain d where free: "node_at w (d @ [name]) = None"
    and w': "w' = add_node w (d @ [name]) n"
    by (rule create_nodeE)
  from st have p: "p \<noteq> []"
    by (auto simp: stat_def split: if_splits)
  with st obtain q where q: "walk w (start_dir w p) (split_slash p) = Inr q"
    by (cases "walk w (start_dir w p) (split_slash p)") (simp_all add: stat_def)
  with st p have m: "node_at w q = Some m"
    by (cases "node_at w q") (simp_all add: stat_def)
  have "walk w' (start_dir w p) (split_slash p) = Inr q"
    unfolding w' using free q by (rule walk_create)
  moreover from m free have "q \<noteq> d @ [name]" by auto
  with m free have "node_at w' q = Some m"
    unfolding w' by (simp add: node_at_create)
  moreover have "start_dir w' p = start_dir w p"
    unfolding w' by (intro start_dir_cwd) simp
  ultimately show ?thesis using p by (simp add: stat_def)
qed

lemma mkdir_stat_mono: "mkdir w p mode = Inr w' \<Longrightarrow> stat w q = Inr m \<Longrightarrow> stat w' q = Inr m"
  by (auto simp: mkdir_def split: if_splits list.splits dest: create_node_stat_mono)

lemma open_excl_stat_mono:
  "open_excl w p mode = Inr w' \<Longrightarrow> stat w q = Inr m \<Longrightarrow> stat w' q = Inr m"
  by (auto simp: open_excl_def split: if_splits list.splits dest: create_node_stat_mono)

lemma node_at_errno [simp]: "node_at (w\<lparr>errno := e\<rparr>) q = node_at w q"
  by (simp add: node_at_def)

lemma walk_errno [simp]: "walk (w\<lparr>errno := e\<rparr>) s xs = walk w s xs"
  by (induction xs arbitrary: s) (simp_all cong: option.case_cong if_cong)

lemma stat_errno [simp]: "stat (w\<lparr>errno := e\<rparr>) p = stat w p"
  by (simp add: stat_def start_dir_cwd [of "w\<lparr>errno := e\<rparr>" w] cong: sum.case_cong)

section \<open>Facts about CreateTarget\<close>

text \<open>The branches of \<open>CreateTarget\<close>, one equation for each answer of \<open>stat\<close>.\<close>

lemma CreateTarget_NULL: "CreateTarget w None d = Inr (- 1, w\<lparr>errno := EINVAL\<rparr>)"
  by (simp add: CreateTarget.simps)

lemma CreateTarget_found:
  "stat w (target_path p) = Inr sb \<Longrightarrow>
   CreateTarget w (Some p) d =
     (if d \<and> kind sb = Dir then Inr (0, w)
      else if \<not> d \<and> kind sb = Reg then Inr (0, w)
      else Inr (- 1, w\<lparr>errno := (if d then ENOTDIR else EEXIST)\<rparr>))"
  by (simp add: CreateTarget.simps [of w "Some p" d])

lemma CreateTarget_error:
  "stat w (target_path p) = Inl e \<Longrightarrow> e \<noteq> ENOENT \<Longrightarrow>
   CreateTarget w (Some p) d = Inr (- 1, w\<lparr>errno := e\<rparr>)"
  by (simp add: CreateTarget.simps [of w "Some p" d])

lemma CreateTarget_missing:
  "stat w (target_path p) = Inl ENOENT \<Longrightarrow>
   CreateTarget w (Some p) d =
     (case CreateTarget (w\<lparr>errno := ENOENT\<rparr>) (Some (dirname (target_path p))) True of
        Inl x \<Rightarrow> Inl x
      | Inr (r, w1) \<Rightarrow>
          if r = - 1 then Inl (Fatal ''CreateTarget(dirname(strdupa(path)), true)'')
          else if d then
            (case mkdir w1 (target_path p) mode_0755 of
               Inl e1 \<Rightarrow> Inl (Fatal (''cannot create '' @ target_path p))
             | Inr w2 \<Rightarrow> Inr (0, w2))
          else
            (case CreateFile w1 (target_path p) of
               Inl x \<Rightarrow> Inl x
             | Inr w2 \<Rightarrow> Inr (0, w2)))"
  by (simp add: CreateTarget.simps [of w "Some p" d])

lemma mkdir_frame: "mkdir w p m = Inr w' \<Longrightarrow> cwd w' = cwd w \<and> umask w' = umask w \<and> errno w' = errno w"
  by (auto simp: mkdir_def split: if_splits list.splits dest: create_node_frame)

lemma open_excl_frame:
  "open_excl w p m = Inr w' \<Longrightarrow> cwd w' = cwd w \<and> umask w' = umask w \<and> errno w' = errno w"
  by (auto simp: open_excl_def split: if_splits list.splits dest: create_node_frame)

lemma CreateFile_Inr: "CreateFile w p = Inr w' \<longleftrightarrow> open_excl w p mode_0666 = Inr w'"
  by (simp add: CreateFile_def split: sum.splits)

lemma CreateTarget_ret:
  assumes "CreateTarget w path d = Inr (r, w')"
  shows "r = 0 \<or> r = - 1"
proof (cases path)
  case None
  with assms show ?thesis by (simp add: CreateTarget_NULL)
next
  case (Some p)
  show ?thesis
  proof (cases "stat w (target_path p)")
    case (Inr sb)
    with assms Some show ?thesis by (auto simp: CreateTarget_found split: if_splits)
  next
    case (Inl e)
    show ?thesis
    proof (cases "e = ENOENT")
      case False
      with assms Some Inl show ?thesis by (simp add: CreateTarget_error)
    next
      case True
      with Inl have "stat w (target_path p) = Inl ENOENT" by simp
      from assms [unfolded Some CreateTarget_missing [OF this]] show ?thesis
        by (auto split: sum.splits if_splits)
    qed
  qed
qed

lemma CreateTarget_missingE:
  assumes st: "stat w (target_path p) = Inl ENOENT"
    and c: "CreateTarget w (Some p) d = Inr (r, w')"
  obtains w1 where "r = 0"
    "CreateTarget (w\<lparr>errno := ENOENT\<rparr>) (Some (dirname (target_path p))) True = Inr (0, w1)"
    "d \<Longrightarrow> mkdir w1 (target_path p) mode_0755 = Inr w'"
    "\<not> d \<Longrightarrow> open_excl w1 (target_path p) mode_0666 = Inr w'"
proof -
  from c [unfolded CreateTarget_missing [OF st]] obtain a w1 where
    rec: "CreateTarget (w\<lparr>errno := ENOENT\<rparr>) (Some (dirname (target_path p))) True = Inr (a, w1)"
    and a: "a \<noteq> - 1"
    and r: "r = 0"
    and mk: "d \<Longrightarrow> mkdir w1 (target_path p) mode_0755 = Inr w'"
      "\<not> d \<Longrightarrow> open_excl w1 (target_path p) mode_0666 = Inr w'"
    by (auto simp: CreateFile_Inr split: sum.splits if_splits)
  from CreateTarget_ret [OF rec] a have "a = 0" by simp
  with rec r mk that show ?thesis by blast
qed

text \<open>What a call that returns leaves of the world: only nodes are added.\<close>

lemma CreateTarget_frame:
  "CreateTarget w path d = Inr (r, w') \<Longrightarrow> cwd w' = cwd w \<and> umask w' = umask w"
proof (induction w path d arbitrary: r w' rule: CreateTarget.induct)
  case (1 w path d)
  show ?case
  proof (cases path)
    case None
    with "1.prems" show ?thesis by (auto simp: CreateTarget_NULL)
  next
    case (Some p)
    show ?thesis
    proof (cases "stat w (target_path p)")
      case (Inr sb)
      with "1.prems" Some show ?thesis
        by (auto simp: CreateTarget_found split: if_splits)
    next
      case (Inl e)
      show ?thesis
      proof (cases "e = ENOENT")
        case False
        with "1.prems" Some Inl show ?thesis by (auto simp: CreateTarget_error)
      next
        case True
        with Inl have st: "stat w (target_path p) = Inl ENOENT" by simp
        obtain w1 where
          rec: "CreateTarget (w\<lparr>errno := ENOENT\<rparr>) (Some (dirname (target_path p))) True = Inr (0, w1)"
          and mk: "d \<Longrightarrow> mkdir w1 (target_path p) mode_0755 = Inr w'"
            "\<not> d \<Longrightarrow> open_excl w1 (target_path p) mode_0666 = Inr w'"
          using CreateTarget_missingE [OF st "1.prems" [unfolded Some]] by blast
        from "1.IH" [OF Some Inl _ rec [unfolded True [symmetric]]] True
        have "cwd w1 = cwd w \<and> umask w1 = umask w" by simp
        with mk show ?thesis by (cases d) (auto dest: mkdir_frame open_excl_frame)
      qed
    qed
  qed
qed

text \<open>After a call that returned 0 the path is there, of the kind asked for.\<close>

lemma CreateTarget_post:
  assumes "CreateTarget w (Some p) d = Inr (0, w')"
  shows "\<exists>sb. stat w' (target_path p) = Inr sb \<and> kind sb = (if d then Dir else Reg)"
proof (cases "stat w (target_path p)")
  case (Inr sb)
  with assms show ?thesis by (auto simp: CreateTarget_found split: if_splits)
next
  case (Inl e)
  show ?thesis
  proof (cases "e = ENOENT")
    case False
    with assms Inl show ?thesis by (simp add: CreateTarget_error)
  next
    case True
    with Inl have st: "stat w (target_path p) = Inl ENOENT" by simp
    obtain w1 where
      mk: "d \<Longrightarrow> mkdir w1 (target_path p) mode_0755 = Inr w'"
        "\<not> d \<Longrightarrow> open_excl w1 (target_path p) mode_0666 = Inr w'"
      using CreateTarget_missingE [OF st assms] by blast
    then show ?thesis by (cases d) (auto dest: mkdir_stat open_excl_stat)
  qed
qed

section \<open>Facts about the mount arrays\<close>

lemma mount_inv_initial: "0 < argc \<Longrightarrow> mount_inv (initial_options argc) Empty []"
  by (simp add: mount_inv_def initial_options_def mount_entries_def stored_def)

lemma take_Suc_update: "n < length xs \<Longrightarrow> take (Suc n) (xs[n := v]) = take n xs @ [v]"
  by (simp add: take_Suc_conv_app_nth)

lemma mount_entries_extend:
  assumes "n < length ss" "n < length ts" "n < length rs"
  shows "zip (take (Suc n) ss) (zip (take (Suc n) (ts[n := t])) (take (Suc n) (rs[n := r])))
       = zip (take n ss) (zip (take n ts) (take n rs)) @ [(ss ! n, t, r)]"
  using assms by (simp add: take_Suc_update take_Suc_conv_app_nth)

lemma close_pending_mount_inv:
  assumes "mount_inv o1 st out"
  shows "\<exists>o2. close_pending_mount o1 = Inr o2 \<and> mount_inv o2 Empty (out @ pending_out st)"
proof (cases st)
  case Empty
  with assms show ?thesis
    by (auto simp: close_pending_mount_def mount_inv_def)
next
  case (SourcePending s)
  let ?n = "num_mounts o1"
  let ?o2 = "o1\<lparr>mount_targets := (mount_targets o1)[?n := mount_sources o1 ! ?n],
                mount_rw := (mount_rw o1)[?n := False], num_mounts := ?n + 1\<rparr>"
  from assms SourcePending have len: "length (mount_sources o1) = mount_map_sizes o1"
      "length (mount_targets o1) = mount_map_sizes o1" "length (mount_rw o1) = mount_map_sizes o1"
    and n: "?n + 1 < mount_map_sizes o1" and src: "mount_sources o1 ! ?n = Some s"
    and rest: "\<forall>i. ?n < i \<and> i < mount_map_sizes o1 \<longrightarrow> mount_sources o1 ! i = None"
    and ent: "mount_entries o1 = stored out"
    by (simp_all add: mount_inv_def)
  have c: "close_pending_mount o1 = Inr ?o2"
    using len n src by (simp add: close_pending_mount_def)
  have "mount_entries ?o2 = mount_entries o1 @ [(Some s, Some s, False)]"
    using len n src mount_entries_extend [of ?n "mount_sources o1" "mount_targets o1" "mount_rw o1"]
    by (simp add: mount_entries_def)
  then have e: "mount_entries ?o2 = stored (out @ [(s, s, False)])"
    using ent by (simp add: stored_def)
  have "mount_inv ?o2 Empty (out @ [(s, s, False)])"
    unfolding mount_inv_def using len n rest e by simp
  with c SourcePending show ?thesis by simp
qed

lemma AddMountSource_None_inv:
  assumes "mount_inv o1 st out"
  shows "\<exists>o2. AddMountSource None o1 = Inr o2 \<and> mount_inv o2 Empty (out @ pending_out st)"
  using close_pending_mount_inv [OF assms] by (auto simp: AddMountSource_def)

lemma open_mount_inv:
  assumes "mount_inv o2 Empty out"
  shows "\<exists>o3. (let o3 = (if mount_map_full o2 then grow_mount_map o2 else o2)
                in if num_mounts o3 \<ge> length (mount_sources o3) then Inl MemFault
                   else Inr (o3\<lparr>mount_sources := (mount_sources o3)[num_mounts o3 := Some s]\<rparr>))
              = Inr o3 \<and> mount_inv o3 (SourcePending s) out"
proof -
  let ?n = "num_mounts o2"
  from assms have len: "length (mount_sources o2) = mount_map_sizes o2"
      "length (mount_targets o2) = mount_map_sizes o2" "length (mount_rw o2) = mount_map_sizes o2"
    and n: "?n < mount_map_sizes o2"
    and rest: "\<forall>i. ?n < i \<and> i < mount_map_sizes o2 \<longrightarrow> mount_sources o2 ! i = None"
    and ent: "mount_entries o2 = stored out"
    by (simp_all add: mount_inv_def)
  show ?thesis
  proof (cases "mount_map_full o2")
    case False
    with n have n1: "?n + 1 < mount_map_sizes o2" by (simp add: mount_map_full_def)
    let ?o3 = "o2\<lparr>mount_sources := (mount_sources o2)[?n := Some s]\<rparr>"
    have "mount_entries ?o3 = mount_entries o2"
      by (simp add: mount_entries_def)
    then have "mount_inv ?o3 (SourcePending s) out"
      unfolding mount_inv_def using len n1 rest ent by simp
    with False len n show ?thesis by simp
  next
    case True
    let ?g = "grow_mount_map o2"
    let ?o3 = "?g\<lparr>mount_sources := (mount_sources ?g)[?n := Some s]\<rparr>"
    have g: "num_mounts ?g = ?n" "mount_map_sizes ?g = mount_map_sizes o2 * 2"
      "length (mount_sources ?g) = mount_map_sizes o2 * 2"
      "length (mount_targets ?g) = mount_map_sizes o2 * 2"
      "length (mount_rw ?g) = mount_map_sizes o2 * 2"
      using len by (simp_all add: grow_mount_map_def)
    have "mount_entries ?o3 = mount_entries o2"
      using len n by (simp add: mount_entries_def grow_mount_map_def)
    moreover have "\<forall>i. ?n < i \<and> i < mount_map_sizes o2 * 2 \<longrightarrow>
        (mount_sources ?g)[?n := Some s] ! i = None"
      using len rest by (auto simp: grow_mount_map_def nth_append)
    moreover have "(mount_sources ?g)[?n := Some s] ! ?n = Some s"
      using g n by simp
    ultimately have "mount_inv ?o3 (SourcePending s) out"
      unfolding mount_inv_def using g n ent by simp
    with True g n show ?thesis by (simp add: Let_def)
  qed
qed

lemma AddMountSource_Some_inv:
  assumes "mount_inv o1 st out"
  shows "\<exists>o3. AddMountSource (Some s) o1 = Inr o3 \<and>
              mount_inv o3 (SourcePending s) (out @ pending_out st)"
proof -
  from close_pending_mount_inv [OF assms] obtain o2 where
    c: "close_pending_mount o1 = Inr o2" and i: "mount_inv o2 Empty (out @ pending_out st)"
    by blast
  from open_mount_inv [OF i, of s] c show ?thesis
    by (simp add: AddMountSource_def)
qed

lemma set_mount_target_pending:
  assumes "mount_inv o1 (SourcePending s) out"
  shows "\<exists>o2. set_mount_target rw msg t o1 = Inr o2 \<and> mount_inv o2 Empty (out @ [(s, t, rw)])"
proof -
  let ?n = "num_mounts o1"
  let ?o2 = "o1\<lparr>mount_rw := (mount_rw o1)[?n := rw],
                mount_targets := (mount_targets o1)[?n := Some t], num_mounts := ?n + 1\<rparr>"
  from assms have len: "length (mount_sources o1) = mount_map_sizes o1"
      "length (mount_targets o1) = mount_map_sizes o1" "length (mount_rw o1) = mount_map_sizes o1"
    and n: "?n + 1 < mount_map_sizes o1" and src: "mount_sources o1 ! ?n = Some s"
    and rest: "\<forall>i. ?n < i \<and> i < mount_map_sizes o1 \<longrightarrow> mount_sources o1 ! i = None"
    and ent: "mount_entries o1 = stored out"
    by (simp_all add: mount_inv_def)
  have c: "set_mount_target rw msg t o1 = Inr ?o2"
    using len n src by (simp add: set_mount_target_def)
  have "mount_entries ?o2 = mount_entries o1 @ [(Some s, Some t, rw)]"
    using len n src mount_entries_extend [of ?n "mount_sources o1" "mount_targets o1" "mount_rw o1"]
    by (simp add: mount_entries_def)
  then have e: "mount_entries ?o2 = stored (out @ [(s, t, rw)])"
    using ent by (simp add: stored_def)
  have "mount_inv ?o2 Empty (out @ [(s, t, rw)])"
    unfolding mount_inv_def using len n rest e by simp
  with c show ?thesis by simp
qed

lemma set_mount_target_empty:
  assumes "mount_inv o1 Empty out"
  shows "set_mount_target rw msg t o1 = Inl (UsageError msg)"
  using assms by (simp add: set_mount_target_def mount_inv_def)


lemma handle_option_M:
  "handle_option u g (CHR ''M'') a st =
     (if not_absolute a
      then Inl (UsageError ''The -M option must be used with absolute paths only.'')
      else (case AddMountSource (Some a) (opt st) of
              Inl e \<Rightarrow> Inl e
            | Inr o2 \<Rightarrow> Inr (st\<lparr>opt := o2\<rparr>)))"
  by (simp add: handle_option_def)

lemma handle_option_m:
  "handle_option u g (CHR ''m'') a st =
     (if not_absolute a
      then Inl (UsageError ''The -m option must be used with absolute paths only.'')
      else (case set_mount_target False ''The -m option must be preceded by an -M option.''
                   a (opt st) of
              Inl e \<Rightarrow> Inl e
            | Inr o2 \<Rightarrow> Inr (st\<lparr>opt := o2\<rparr>)))"
  by (simp add: handle_option_def)

lemma handle_option_w:
  "handle_option u g (CHR ''w'') a st =
     (if not_absolute a
      then Inl (UsageError ''The -w option must be used with absolute paths only.'')
      else (case set_mount_target True ''The -w option must be preceded by an -M option.''
                   a (opt st) of
              Inl e \<Rightarrow> Inl e
            | Inr o2 \<Rightarrow> Inr (st\<lparr>opt := o2\<rparr>)))"
  by (simp add: handle_option_def)

lemma parse_flags_Nil:
  "parse_flags u g [] st =
     (case AddMountSource None (opt st) of Inl e \<Rightarrow> Inl e | Inr o2 \<Rightarrow> Inr (st\<lparr>opt := o2\<rparr>))"
  by (simp add: parse_flags_def)

lemma parse_flags_Cons:
  "parse_flags u g ((c, a) # rest) st =
     (case handle_option u g c a st of Inl e \<Rightarrow> Inl e | Inr st' \<Rightarrow> parse_flags u g rest st')"
  by (simp add: parse_flags_def split: sum.splits)

text \<open>One flag: the code's step and the machine's step agree.\<close>

lemma handle_flag_machine:
  assumes inv: "mount_inv (opt st0) ms out" and a: "\<not> not_absolute (flag_arg f)"
  shows "case machine_step ms f of
           None \<Rightarrow> (\<exists>msg. handle_option u g (fst (flag_found f)) (snd (flag_found f)) st0
                            = Inl (UsageError msg))
         | Some (emitted, ms') \<Rightarrow>
             (\<exists>st1. handle_option u g (fst (flag_found f)) (snd (flag_found f)) st0 = Inr st1 \<and>
                    mount_inv (opt st1) ms' (out @ emitted))"
proof (cases f)
  case (Flag_M s)
  from AddMountSource_Some_inv [OF inv, of s] obtain o3 where
    "AddMountSource (Some s) (opt st0) = Inr o3"
    "mount_inv o3 (SourcePending s) (out @ pending_out ms)" by blast
  with Flag_M a show ?thesis
    by (cases ms) (simp_all add: handle_option_M)
next
  case (Flag_m t)
  show ?thesis
  proof (cases ms)
    case Empty
    with Flag_m a set_mount_target_empty [OF inv [unfolded Empty]] show ?thesis
      by (simp add: handle_option_m)
  next
    case (SourcePending s)
    from set_mount_target_pending [OF inv [unfolded SourcePending], of False _ t]
    obtain o2 where
      "set_mount_target False ''The -m option must be preceded by an -M option.'' t (opt st0) = Inr o2"
      "mount_inv o2 Empty (out @ [(s, t, False)])" by blast
    with Flag_m a SourcePending show ?thesis by (simp add: handle_option_m)
  qed
next
  case (Flag_w t)
  show ?thesis
  proof (cases ms)
    case Empty
    with Flag_w a set_mount_target_empty [OF inv [unfolded Empty]] show ?thesis
      by (simp add: handle_option_w)
  next
    case (SourcePending s)
    from set_mount_target_pending [OF inv [unfolded SourcePending], of True _ t]
    obtain o2 where
      "set_mount_target True ''The -w option must be preceded by an -M option.'' t (opt st0) = Inr o2"
      "mount_inv o2 Empty (out @ [(s, t, True)])" by blast
    with Flag_w a SourcePending show ?thesis by (simp add: handle_option_w)
  qed
qed

lemma parse_flags_machine:
  assumes "mount_inv (opt st0) ms out" and "\<forall>f\<in>set flags. \<not> not_absolute (flag_arg f)"
  shows "case machine_run ms flags of
           None \<Rightarrow> (\<exists>msg. parse_flags u g (map flag_found flags) st0 = Inl (UsageError msg))
         | Some later \<Rightarrow>
             (\<exists>st1. parse_flags u g (map flag_found flags) st0 = Inr st1 \<and>
                    mount_inv (opt st1) Empty (out @ later))"
  using assms
proof (induction flags arbitrary: st0 ms out)
  case Nil
  from AddMountSource_None_inv [OF Nil.prems(1)] obtain o2 where
    "AddMountSource None (opt st0) = Inr o2" "mount_inv o2 Empty (out @ pending_out ms)"
    by blast
  then show ?case by (cases ms) (simp_all add: parse_flags_Nil)
next
  case (Cons f fs)
  from Cons.prems(2) have a: "\<not> not_absolute (flag_arg f)"
    and rest: "\<forall>f\<in>set fs. \<not> not_absolute (flag_arg f)" by simp_all
  have pc: "parse_flags u g (flag_found f # map flag_found fs) st0 =
      (case handle_option u g (fst (flag_found f)) (snd (flag_found f)) st0 of
         Inl e \<Rightarrow> Inl e | Inr st' \<Rightarrow> parse_flags u g (map flag_found fs) st')"
    using parse_flags_Cons [of u g "fst (flag_found f)" "snd (flag_found f)" "map flag_found fs" st0]
    by simp
  show ?case
  proof (cases "machine_step ms f")
    case None
    with handle_flag_machine [OF Cons.prems(1) a, of u g] show ?thesis
      by (auto simp: pc)
  next
    case (Some r)
    obtain emitted ms' where r: "r = (emitted, ms')" by (cases r)
    with Some handle_flag_machine [OF Cons.prems(1) a, of u g] obtain st1 where
      h: "handle_option u g (fst (flag_found f)) (snd (flag_found f)) st0 = Inr st1"
      and i: "mount_inv (opt st1) ms' (out @ emitted)" by auto
    from Cons.IH [OF i rest] Some r h show ?thesis
      by (auto simp: pc split: option.splits)
  qed
qed

lemma handle_option_S:
  "handle_option u g (CHR ''S'') a st =
     (if sandbox_root (opt st) = None then
        (if a = [] then Inl MemFault
         else Inr (st\<lparr>opt := (opt st)\<lparr>sandbox_root :=
                  Some (if last a = CHR ''/'' then butlast a else a)\<rparr>\<rparr>))
      else Inl (UsageError ''Multiple sandbox roots (-S) specified, expected one.''))"
  by (simp add: handle_option_def Let_def)

lemma handle_option_not_absolute:
  "not_absolute a \<Longrightarrow> c = CHR ''M'' \<or> c = CHR ''m'' \<or> c = CHR ''w'' \<Longrightarrow>
   \<exists>msg. handle_option u g c a st = Inl (UsageError msg)"
  by (auto simp: handle_option_M handle_option_m handle_option_w)

section \<open>The reader of argument files and the lines of a file\<close>

lemma file_lines_first: "NL \<notin> set l \<Longrightarrow> file_lines (l @ NL # rest) = l # file_lines rest"
  by (induction l) auto

lemma file_lines_last: "NL \<notin> set l \<Longrightarrow> l \<noteq> [] \<Longrightarrow> file_lines l = [l]"
proof (induction l)
  case Nil
  then show ?case by simp
next
  case (Cons c l)
  then show ?case by (cases "l = []") auto
qed

lemma fgets_line_first:
  "NL \<notin> set l \<Longrightarrow> length l < n \<Longrightarrow> fgets_line n (l @ NL # rest) = (l @ [NL], rest)"
proof (induction l arbitrary: n)
  case Nil
  then show ?case by (cases n) auto
next
  case (Cons c l)
  then show ?case by (cases n) auto
qed

lemma fgets_line_last: "NL \<notin> set l \<Longrightarrow> length l \<le> n \<Longrightarrow> fgets_line n l = (l, [])"
proof (induction l arbitrary: n)
  case Nil
  then show ?case by (cases n) auto
next
  case (Cons c l)
  then show ?case by (cases n) auto
qed

lemma cstring_no_NUL: "NUL \<notin> set b \<Longrightarrow> cstring b = b"
  by (auto simp: cstring_def)

lemma NL_not_NUL: "NL \<noteq> NUL"
  by (simp add: NL_def NUL_def)

text \<open>One turn of the loop, for a line that ends in a newline and for a last line that does not.\<close>

lemma read_arguments_line:
  assumes "NL \<notin> set l" "NUL \<notin> set l" "length l \<le> 8190"
  shows "read_arguments (l @ NL # rest) acc = read_arguments rest (acc @ [l])"
proof -
  have fg: "fgets 8192 (l @ NL # rest) = Some (l @ [NL], rest)"
    using assms by (simp add: fgets_def fgets_line_first)
  have cs: "cstring (l @ [NL]) = l @ [NL]"
    using assms NL_not_NUL by (intro cstring_no_NUL) auto
  show ?thesis
    using assms(3)
    by (subst read_arguments.simps) (simp add: fg cs)
qed

lemma read_arguments_last:
  assumes "NL \<notin> set l" "NUL \<notin> set l" "length l \<le> 8190" "l \<noteq> []"
  shows "read_arguments l acc = Inr (acc @ [l])"
proof -
  have fg: "fgets 8192 l = Some (l, [])"
    using assms by (simp add: fgets_def fgets_line_last)
  have cs: "cstring l = l"
    using assms by (intro cstring_no_NUL)
  have "l ! (length l - 1) \<in> set l"
    using assms(4) by simp
  with assms(1) have "l ! (length l - 1) \<noteq> NL" by auto
  then show ?thesis
    using assms(3,4)
    by (subst read_arguments.simps) (simp add: fg cs)
qed

lemma read_arguments_eof: "read_arguments [] acc = Inr acc"
  by (subst read_arguments.simps) (simp add: fgets_def)

text \<open>
  The loop gives the lines of the file, each as one argument, when the file has no NUL
  byte and no line of more than 8190 bytes (a line and its newline then fit the buffer).
\<close>

lemma read_arguments_lines:
  "NUL \<notin> set s \<Longrightarrow> \<forall>l\<in>set (file_lines s). length l \<le> 8190 \<Longrightarrow>
   read_arguments s acc = Inr (acc @ file_lines s)"
proof (induction s arbitrary: acc rule: length_induct)
  case (1 s)
  show ?case
  proof (cases "NL \<in> set s")
    case True
    from split_list_first [OF True] obtain l rest where s: "s = l @ NL # rest" "NL \<notin> set l"
      by blast
    have lines: "file_lines s = l # file_lines rest"
      using s by (simp add: file_lines_first)
    with "1.prems" s have l: "length l \<le> 8190" "NUL \<notin> set l"
      and rest: "NUL \<notin> set rest" "\<forall>l\<in>set (file_lines rest). length l \<le> 8190"
      by auto
    have "length rest < length s" using s by simp
    with "1.IH" rest have "read_arguments rest (acc @ [l]) = Inr ((acc @ [l]) @ file_lines rest)"
      by blast
    with read_arguments_line [OF s(2) l(2) l(1), of rest acc] s(1) lines show ?thesis by simp
  next
    case False
    show ?thesis
    proof (cases "s = []")
      case True
      then show ?thesis by (simp add: read_arguments_eof)
    next
      case ne: False
      with False have lines: "file_lines s = [s]" by (simp add: file_lines_last)
      with "1.prems" have "length s \<le> 8190" by simp
      from read_arguments_last [OF False "1.prems"(1) this ne] lines show ?thesis by simp
    qed
  qed
qed

text \<open>
  \<open>fgets\<close> never fills more than 8191 bytes of the buffer, so the test
  \<open>length == sizeof(argument)\<close> is never true: the loop always returns a vector, and a
  line too long for the buffer is cut into pieces.
\<close>

lemma fgets_line_length: "length (fst (fgets_line n s)) \<le> n"
  by (induction n s rule: fgets_line.induct) (auto split: prod.splits)

lemma cstring_length: "length (cstring b) \<le> length b"
  by (simp add: cstring_def length_takeWhile_le)

lemma fgets_fits:
  assumes "fgets 8192 stream = Some (argument, rest)"
  shows "length (cstring argument) \<noteq> 8192"
proof -
  from assms have "argument = fst (fgets_line 8191 stream)"
    by (auto simp: fgets_def split: if_splits)
  then have "length argument \<le> 8191"
    using fgets_line_length [of 8191 stream] by simp
  with cstring_length [of argument] show ?thesis by simp
qed

lemma read_arguments_never_too_long: "\<exists>r. read_arguments stream sub_argv = Inr r"
proof (induction stream sub_argv rule: read_arguments.induct)
  case (1 stream sub_argv)
  show ?case
  proof (cases "fgets 8192 stream")
    case None
    then show ?thesis by (subst read_arguments.simps) simp
  next
    case (Some x)
    obtain argument rest where x: "x = (argument, rest)" by (cases x)
    with Some have fg: "fgets 8192 stream = Some (argument, rest)" by simp
    note fits = fgets_fits [OF fg]
    show ?thesis
    proof (cases "length (cstring argument) = 0")
      case True
      with "1.IH"(1) [OF Some x [symmetric]] show ?thesis
        by (subst read_arguments.simps) (simp add: fg)
    next
      case False
      show ?thesis
      proof (cases "cstring argument ! (length (cstring argument) - 1) = NL")
        case True
        with "1.IH"(2) [OF Some x [symmetric] False fits] False fits show ?thesis
          by (subst read_arguments.simps) (simp add: fg)
      next
        case nl: False
        with False fits show ?thesis
          by (subst read_arguments.simps) (simp add: fg)
      qed
    qed
  qed
qed

lemma getopt_example [simp]: "getopt example_env = simple_getopt" "getuid example_env = 1000"
  "getgid example_env = 1000"
  by (simp_all add: example_env_def)

lemma blank_line_file_lines: "file_lines blank_line_file = [''-M'', [], ''/bin'']"
  by (simp add: blank_line_file_def NL_def)

lemma inner_lines: "file_lines inner_file = [''-d'', ''/var/cache'']"
  by (simp add: inner_file_def NL_def)

lemma outer_lines: "file_lines outer_file = [''-M'', ''/bin'', ''@inner'']"
  by (simp add: outer_file_def NL_def)

lemma replicate_5: "replicate 5 x = [x, x, x, x, x]"
  by (simp add: eval_nat_numeral)

lemma fopen_inner: "ParseOptionsFile_argv (fopen example_env ''inner'') = Inr [[], ''-d'', ''/var/cache'']"
proof -
  have "NUL \<notin> set inner_file"
    by (simp add: inner_file_def NL_def NUL_def)
  moreover have "\<forall>l\<in>set (file_lines inner_file). length l \<le> 8190"
    by (simp add: inner_lines)
  ultimately have "read_arguments inner_file [[]] = Inr ([[]] @ file_lines inner_file)"
    by (rule read_arguments_lines)
  then show ?thesis
    by (simp add: ParseOptionsFile_argv_def example_env_def inner_lines)
qed

lemma fopen_blank:
  "ParseOptionsFile_argv (fopen example_env ''blank'') = Inr [[], ''-M'', [], ''/bin'']"
proof -
  have "NUL \<notin> set blank_line_file"
    by (simp add: blank_line_file_def NL_def NUL_def)
  moreover have "\<forall>l\<in>set (file_lines blank_line_file). length l \<le> 8190"
    by (simp add: blank_line_file_lines)
  ultimately have "read_arguments blank_line_file [[]] = Inr ([[]] @ file_lines blank_line_file)"
    by (rule read_arguments_lines)
  then show ?thesis
    by (simp add: ParseOptionsFile_argv_def example_env_def blank_line_file_lines)
qed

section \<open>Inherited mount flags: the first entry wins\<close>

lemma scan_mounts_first:
  "\<forall>x\<in>set before. mnt_dir x \<noteq> path \<Longrightarrow> mnt_dir e = path \<Longrightarrow>
   scan_mounts (before @ e # after) path = Some e"
  by (induction before) auto

lemma scan_mounts_none:
  "\<forall>x\<in>set entries. mnt_dir x \<noteq> path \<Longrightarrow> scan_mounts entries path = None"
  by (induction entries) auto

text \<open>
  Claim C1, as the code has it. \<open>GetMountFlags\<close> leaves the scan at the first entry of
  \<open>/proc/self/mounts\<close> whose mount point equals the path, so that entry decides the
  result: the mask holds \<open>MS_NODEV\<close>, \<open>MS_NOSUID\<close>, \<open>MS_NOEXEC\<close> exactly when the
  entry has the options \<open>nodev\<close>, \<open>nosuid\<close>, \<open>noexec\<close>, and no other bit. With no
  entry mounted on the path the result is 0.
\<close>

theorem GetMountFlags_first_match:
  "((\<forall>x\<in>set entries. mnt_dir x \<noteq> path) \<longrightarrow> GetMountFlags (Some entries) path = Inr 0) \<and>
   ((\<forall>x\<in>set before. mnt_dir x \<noteq> path) \<and> mnt_dir e = path \<longrightarrow>
      (\<exists>ret. GetMountFlags (Some (before @ e # after)) path = Inr ret \<and>
         (ret AND MS_NODEV = MS_NODEV \<longleftrightarrow> hasmntopt e ''nodev'') \<and>
         (ret AND MS_NOSUID = MS_NOSUID \<longleftrightarrow> hasmntopt e ''nosuid'') \<and>
         (ret AND MS_NOEXEC = MS_NOEXEC \<longleftrightarrow> hasmntopt e ''noexec'') \<and>
         ret AND NOT (MS_NODEV OR MS_NOSUID OR MS_NOEXEC) = 0))"
proof (intro conjI impI)
  assume "\<forall>x\<in>set entries. mnt_dir x \<noteq> path"
  then show "GetMountFlags (Some entries) path = Inr 0"
    by (simp add: GetMountFlags_def scan_mounts_none)
next
  assume "(\<forall>x\<in>set before. mnt_dir x \<noteq> path) \<and> mnt_dir e = path"
  then have s: "scan_mounts (before @ e # after) path = Some e"
    by (simp add: scan_mounts_first)
  show "\<exists>ret. GetMountFlags (Some (before @ e # after)) path = Inr ret \<and>
         (ret AND MS_NODEV = MS_NODEV \<longleftrightarrow> hasmntopt e ''nodev'') \<and>
         (ret AND MS_NOSUID = MS_NOSUID \<longleftrightarrow> hasmntopt e ''nosuid'') \<and>
         (ret AND MS_NOEXEC = MS_NOEXEC \<longleftrightarrow> hasmntopt e ''noexec'') \<and>
         ret AND NOT (MS_NODEV OR MS_NOSUID OR MS_NOEXEC) = 0"
    by (cases "hasmntopt e ''nodev''"; cases "hasmntopt e ''nosuid''"; cases "hasmntopt e ''noexec''")
       (simp_all add: GetMountFlags_def s MS_NODEV_def MS_NOSUID_def MS_NOEXEC_def)
qed

theorem GetMountFlags_first_match_witness:
  "GetMountFlags (Some []) ''/sandbox/tmp'' = Inr 0 \<and>
   (\<exists>ret. GetMountFlags (Some ([] @ (ex_mounts ! 0) # [ex_mounts ! 1])) ''/sandbox/tmp'' = Inr ret \<and>
         (ret AND MS_NODEV = MS_NODEV \<longleftrightarrow> hasmntopt (ex_mounts ! 0) ''nodev'') \<and>
         (ret AND MS_NOSUID = MS_NOSUID \<longleftrightarrow> hasmntopt (ex_mounts ! 0) ''nosuid'') \<and>
         (ret AND MS_NOEXEC = MS_NOEXEC \<longleftrightarrow> hasmntopt (ex_mounts ! 0)  ''noexec'') \<and>
         ret AND NOT (MS_NODEV OR MS_NOSUID OR MS_NOEXEC) = 0)"
  using GetMountFlags_first_match [of "[]" "''/sandbox/tmp''" "[]" "ex_mounts ! 0" "[ex_mounts ! 1]"]
  by (simp add: ex_mounts_def)

text \<open>
  Claim C1 as the specification states it (the last entry mounted on the path wins) fails:
  of two entries mounted on \<open>/sandbox/tmp\<close>, the first with \<open>nodev\<close> and the last
  without, the code returns \<open>MS_NODEV\<close>.
\<close>

theorem GetMountFlags_last_match_counterexample:
  "GetMountFlags (Some ex_mounts) ''/sandbox/tmp'' = Inr MS_NODEV \<and>
   last_mounted_on ex_mounts ''/sandbox/tmp'' = Some (ex_mounts ! 1) \<and>
   \<not> hasmntopt (ex_mounts ! 1) ''nodev''"
  by (simp add: GetMountFlags_def ex_mounts_def last_mounted_on_def hasmntopt_def MS_NODEV_def)

section \<open>Namespace creation: the back-off\<close>

text \<open>
  Claim C2 at a failing input. When \<open>unshare\<close> fails with \<open>EINVAL\<close> nineteen times and
  then succeeds, \<open>CreateNamespaces\<close> returns normally, and the delays it slept are the
  powers of two from 1 up to 262144 microseconds: the last one is above the 250000
  microseconds that the claim and the comment in the code give as the ceiling.
\<close>

theorem CreateNamespaces_sleeps_262144: "fst (CreateNamespaces einval19 False) = Inr () \<and>
   sleeps (snd (CreateNamespaces einval19 False)) =
     [1, 2, 4, 8, 16, 32, 64, 128, 256, 512, 1024, 2048, 4096, 8192, 16384, 32768, 65536,
      131072, 262144]"
  by (simp add: CreateNamespaces_def einval19_def max_tries_def)

section \<open>Recursive target creation: the claims\<close>

lemma stat_sandbox_with_a: "stat empty_sandbox ''a'' = Inl ENOENT"
  by (simp add: stat_def empty_sandbox_def start_dir_def node_at_def step_def)

lemma dirname_a: "dirname ''a'' = ''.''"
  by (simp add: dirname_def strip_slashes_def strip_name_def)

lemma mkdir_sandbox_with_a: "mkdir (empty_sandbox\<lparr>errno := ENOENT\<rparr>) ''a'' mode_0755 = Inr sandbox_with_a"
  by (simp add: mkdir_def create_node_def empty_sandbox_def sandbox_with_a_def start_dir_def node_at_def step_def)

lemma CreateTarget_sandbox_with_a: "CreateTarget empty_sandbox (Some ''a'') True = Inr (0, sandbox_with_a)"
proof -
  have 1: "stat empty_sandbox (target_path ''a'') = Inl ENOENT"
    by (simp add: target_path_def stat_sandbox_with_a)
  have 2: "CreateTarget (empty_sandbox\<lparr>errno := ENOENT\<rparr>) (Some ''.'') True = Inr (0, empty_sandbox\<lparr>errno := ENOENT\<rparr>)"
    by (simp add: CreateTarget_found [of _ _ "\<lparr>kind = Dir, perm = mode_0755\<rparr>"] target_path_def stat_dot)
  show ?thesis
    by (simp add: CreateTarget_missing [OF 1]) (simp add: target_path_def dirname_a 2 mkdir_sandbox_with_a)
qed

text \<open>
  Claim C10. Called with a \<open>NULL\<close> path, \<open>CreateTarget\<close> returns -1 with \<open>errno\<close> set
  to \<open>EINVAL\<close>, and the file system is as it was.
\<close>

theorem CreateTarget_NULL_path:
  "CreateTarget w None is_directory = Inr (- 1, w\<lparr>errno := EINVAL\<rparr>) \<and>
   nodes (w\<lparr>errno := EINVAL\<rparr>) = nodes w \<and> cwd (w\<lparr>errno := EINVAL\<rparr>) = cwd w"
  by (simp add: CreateTarget_NULL)

text \<open>
  Claim C8. A second call of \<open>CreateTarget\<close> with the same arguments, made in the world
  the first call left, returns what the first call returned and changes nothing: when the
  first call succeeds (returns 0), so does the second, and the file system after the
  second call is the file system after the first.
\<close>

theorem CreateTarget_idempotent:
  assumes "CreateTarget w path is_directory = Inr (r, w1)"
  shows "CreateTarget w1 path is_directory = Inr (r, w1)"
proof (cases path)
  case None
  with assms show ?thesis by (auto simp: CreateTarget_NULL)
next
  case (Some p)
  show ?thesis
  proof (cases "stat w (target_path p)")
    case (Inr sb)
    with assms Some have "(r = 0 \<and> w1 = w) \<or> (\<exists>e. w1 = w\<lparr>errno := e\<rparr>)"
      by (auto simp: CreateTarget_found split: if_splits)
    then have "stat w1 (target_path p) = Inr sb"
      using Inr by auto
    with assms Some Inr show ?thesis
      by (auto simp: CreateTarget_found split: if_splits)
  next
    case (Inl e)
    show ?thesis
    proof (cases "e = ENOENT")
      case False
      with assms Some Inl have w1: "r = - 1" "w1 = w\<lparr>errno := e\<rparr>"
        by (simp_all add: CreateTarget_error)
      with Inl have "stat w1 (target_path p) = Inl e" by simp
      with False w1 Some show ?thesis by (simp add: CreateTarget_error)
    next
      case True
      with Inl have st: "stat w (target_path p) = Inl ENOENT" by simp
      from CreateTarget_missingE [OF st assms [unfolded Some]] have r: "r = 0" by blast
      with assms Some have "CreateTarget w (Some p) is_directory = Inr (0, w1)" by simp
      from CreateTarget_post [OF this] obtain sb where
        "stat w1 (target_path p) = Inr sb" "kind sb = (if is_directory then Dir else Reg)"
        by blast
      with r Some show ?thesis by (simp add: CreateTarget_found)
    qed
  qed
qed

theorem CreateTarget_idempotent_witness:
  "CreateTarget empty_sandbox (Some ''a'') True = Inr (0, sandbox_with_a) \<and>
   CreateTarget sandbox_with_a (Some ''a'') True = Inr (0, sandbox_with_a)"
  using CreateTarget_idempotent [OF CreateTarget_sandbox_with_a] CreateTarget_sandbox_with_a by simp

text \<open>
  Claim C5, as the code has it. An empty path is treated as \<open>.\<close>, and succeeds when a
  directory is asked for. A path that exists with the kind asked for gives 0 and leaves
  the world unchanged; one that exists with another kind gives -1 with \<open>ENOTDIR\<close> (a
  directory was asked for) or \<open>EEXIST\<close> (a file was asked for). For a path that does not
  exist, a call that returns has returned 0, has created the parent by the recursive call
  for \<open>dirname path\<close> as a directory and then the node itself by \<open>mkdir\<close> with mode
  0755 or by \<open>open\<close> with \<open>O_CREAT | O_EXCL\<close> and mode 0666; afterwards the path is
  a directory or a regular file as asked, with the mode less the process's umask, and its
  parent is a directory.
\<close>

theorem CreateTarget_contract:
  "CreateTarget w (Some []) d0 = CreateTarget w (Some ''.'') d0 \<and>
   CreateTarget w (Some []) True = Inr (0, w) \<and>
   (stat w (target_path p1) = Inr sb1 \<and> kind sb1 = (if d1 then Dir else Reg) \<longrightarrow>
      CreateTarget w (Some p1) d1 = Inr (0, w)) \<and>
   (stat w (target_path p2) = Inr sb2 \<and> kind sb2 \<noteq> (if d2 then Dir else Reg) \<longrightarrow>
      CreateTarget w (Some p2) d2 = Inr (- 1, w\<lparr>errno := (if d2 then ENOTDIR else EEXIST)\<rparr>)) \<and>
   (stat w (target_path p3) = Inl ENOENT \<and> CreateTarget w (Some p3) d3 = Inr (r, w') \<longrightarrow>
      r = 0 \<and>
      (\<exists>w1. CreateTarget (w\<lparr>errno := ENOENT\<rparr>) (Some (dirname (target_path p3))) True = Inr (0, w1) \<and>
            (if d3 then mkdir w1 (target_path p3) mode_0755
             else open_excl w1 (target_path p3) mode_0666) = Inr w') \<and>
      stat w' (target_path p3) =
        Inr \<lparr>kind = (if d3 then Dir else Reg),
             perm = (if d3 then mode_0755 else mode_0666) AND NOT (umask w)\<rparr> \<and>
      (\<exists>n. stat w' (dirname (target_path p3)) = Inr n \<and> kind n = Dir))"
proof (intro conjI impI)
  show "CreateTarget w (Some []) d0 = CreateTarget w (Some ''.'') d0"
    using CreateTarget_found [of w "[]" "\<lparr>kind = Dir, perm = mode_0755\<rparr>" d0]
      CreateTarget_found [of w "''.''" "\<lparr>kind = Dir, perm = mode_0755\<rparr>" d0]
    by (simp add: target_path_def stat_dot)
  show "CreateTarget w (Some []) True = Inr (0, w)"
    using CreateTarget_found [of w "[]" "\<lparr>kind = Dir, perm = mode_0755\<rparr>" True]
    by (simp add: target_path_def stat_dot)
next
  assume "stat w (target_path p1) = Inr sb1 \<and> kind sb1 = (if d1 then Dir else Reg)"
  then show "CreateTarget w (Some p1) d1 = Inr (0, w)"
    by (auto simp: CreateTarget_found split: if_splits)
next
  assume "stat w (target_path p2) = Inr sb2 \<and> kind sb2 \<noteq> (if d2 then Dir else Reg)"
  then show "CreateTarget w (Some p2) d2 =
      Inr (- 1, w\<lparr>errno := (if d2 then ENOTDIR else EEXIST)\<rparr>)"
    by (auto simp: CreateTarget_found split: if_splits)
next
  assume a: "stat w (target_path p3) = Inl ENOENT \<and> CreateTarget w (Some p3) d3 = Inr (r, w')"
  then have st: "stat w (target_path p3) = Inl ENOENT"
    and c: "CreateTarget w (Some p3) d3 = Inr (r, w')" by simp_all
  obtain w1 where r: "r = 0"
    and rec: "CreateTarget (w\<lparr>errno := ENOENT\<rparr>) (Some (dirname (target_path p3))) True = Inr (0, w1)"
    and mk: "d3 \<Longrightarrow> mkdir w1 (target_path p3) mode_0755 = Inr w'"
      "\<not> d3 \<Longrightarrow> open_excl w1 (target_path p3) mode_0666 = Inr w'"
    using CreateTarget_missingE [OF st c] by blast
  show "r = 0" by (rule r)
  show "\<exists>w1. CreateTarget (w\<lparr>errno := ENOENT\<rparr>) (Some (dirname (target_path p3))) True = Inr (0, w1) \<and>
            (if d3 then mkdir w1 (target_path p3) mode_0755
             else open_excl w1 (target_path p3) mode_0666) = Inr w'"
    using rec mk by (cases d3) auto
  have um: "umask w1 = umask w"
    using CreateTarget_frame [OF rec] by simp
  show "stat w' (target_path p3) =
        Inr \<lparr>kind = (if d3 then Dir else Reg),
             perm = (if d3 then mode_0755 else mode_0666) AND NOT (umask w)\<rparr>"
    using mk um by (cases d3) (auto dest: mkdir_stat open_excl_stat)
  have "target_path (dirname (target_path p3)) = dirname (target_path p3)"
    by (simp add: target_path_def dirname_not_empty)
  with CreateTarget_post [OF rec] obtain n where
    n: "stat w1 (dirname (target_path p3)) = Inr n" "kind n = Dir" by auto
  then have "stat w' (dirname (target_path p3)) = Inr n"
    using mk by (cases d3) (auto dest: mkdir_stat_mono open_excl_stat_mono)
  with n show "\<exists>n. stat w' (dirname (target_path p3)) = Inr n \<and> kind n = Dir" by blast
qed

theorem CreateTarget_contract_witness:
  "stat empty_sandbox (target_path ''.'') = Inr \<lparr>kind = Dir, perm = mode_0755\<rparr> \<and>
   CreateTarget empty_sandbox (Some ''.'') True = Inr (0, empty_sandbox) \<and>
   CreateTarget empty_sandbox (Some ''.'') False = Inr (- 1, empty_sandbox\<lparr>errno := EEXIST\<rparr>) \<and>
   stat empty_sandbox (target_path ''a'') = Inl ENOENT \<and>
   CreateTarget empty_sandbox (Some ''a'') True = Inr (0, sandbox_with_a) \<and>
   stat sandbox_with_a ''a'' = Inr \<lparr>kind = Dir, perm = mode_0755 AND NOT 18\<rparr> \<and>
   (\<exists>n. stat sandbox_with_a ''.'' = Inr n \<and> kind n = Dir)"
  using CreateTarget_contract [where w = empty_sandbox and ?p1.0 = "''.''" and ?d1.0 = True
      and ?sb1.0 = "\<lparr>kind = Dir, perm = mode_0755\<rparr>"
      and ?p2.0 = "''.''" and ?d2.0 = False and ?sb2.0 = "\<lparr>kind = Dir, perm = mode_0755\<rparr>"
      and ?p3.0 = "''a''" and ?d3.0 = True and r = 0 and w' = sandbox_with_a]
    CreateTarget_sandbox_with_a stat_sandbox_with_a
  by (simp add: target_path_def stat_dot dirname_a) (simp add: empty_sandbox_def)

text \<open>
  Claim C5 as the specification states it fails for an empty path when a file is asked
  for: \<open>.\<close> is a directory, so the call returns -1 with \<open>EEXIST\<close>.
\<close>

theorem CreateTarget_empty_path_file_counterexample:
  "CreateTarget empty_sandbox (Some []) False = Inr (- 1, empty_sandbox\<lparr>errno := EEXIST\<rparr>)"
  using CreateTarget_found [of empty_sandbox "[]" "\<lparr>kind = Dir, perm = mode_0755\<rparr>" False]
  by (simp add: target_path_def stat_dot)

section \<open>Mount-entry assembly\<close>

text \<open>
  Claim C3. Started from the options as \<open>main\<close> sets them up (\<open>argc > 0\<close>), the
  \<open>getopt\<close> loop over any sequence of \<open>-M\<close>, \<open>-m\<close> and \<open>-w\<close> flags with absolute
  paths, followed by \<open>AddMountSource(NULL, opt)\<close>, does what the two-state machine does:
  where the machine meets \<open>-m\<close> or \<open>-w\<close> in state \<open>Empty\<close> the parser leaves with a
  usage error, and otherwise the mount arrays hold, in order, exactly the entries the
  machine emits, the entry for a source still pending at the end of the parse included.
\<close>

theorem mount_assembly_refines_machine:
  assumes "0 < argc" and "\<forall>f\<in>set flags. \<not> not_absolute (flag_arg f)"
  shows "case machine_run Empty flags of
           None \<Rightarrow>
             (\<exists>msg. parse_flags ruid rgid (map flag_found flags)
                      \<lparr>opt = initial_options argc, global_debug = dbg, optind = oi\<rparr>
                    = Inl (UsageError msg))
         | Some entries \<Rightarrow>
             (\<exists>st1. parse_flags ruid rgid (map flag_found flags)
                      \<lparr>opt = initial_options argc, global_debug = dbg, optind = oi\<rparr>
                    = Inr st1 \<and>
                    mount_entries (opt st1) = map (\<lambda>(s, t, rw). (Some s, Some t, rw)) entries)"
proof -
  have "mount_inv (opt \<lparr>opt = initial_options argc, global_debug = dbg, optind = oi\<rparr>) Empty []"
    using assms(1) by (simp add: mount_inv_initial)
  from parse_flags_machine [OF this assms(2), of ruid rgid] show ?thesis
    by (auto simp: mount_inv_def stored_def split: option.splits)
qed

theorem mount_assembly_refines_machine_witness:
  "machine_run Empty example_flags =
     Some [(''/bin'', ''/bin'', False), (''/tmp/ws'', ''/work'', True), (''/lib'', ''/lib'', False)] \<and>
   (\<exists>st1. parse_flags 1000 1000 (map flag_found example_flags)
            \<lparr>opt = initial_options 10, global_debug = False, optind = 1\<rparr> = Inr st1 \<and>
          mount_entries (opt st1) =
            [(Some ''/bin'', Some ''/bin'', False), (Some ''/tmp/ws'', Some ''/work'', True),
             (Some ''/lib'', Some ''/lib'', False)]) \<and>
   machine_run Empty [Flag_m ''/work''] = None \<and>
   (\<exists>msg. parse_flags 1000 1000 (map flag_found [Flag_m ''/work''])
            \<lparr>opt = initial_options 3, global_debug = False, optind = 1\<rparr> = Inl (UsageError msg))"
proof -
  have 1: "\<forall>f\<in>set example_flags. \<not> not_absolute (flag_arg f)"
    by (simp add: example_flags_def not_absolute_def)
  have 2: "\<forall>f\<in>set [Flag_m ''/work'']. \<not> not_absolute (flag_arg f)"
    by (simp add: not_absolute_def)
  have m: "machine_run Empty example_flags =
     Some [(''/bin'', ''/bin'', False), (''/tmp/ws'', ''/work'', True), (''/lib'', ''/lib'', False)]"
    by (simp add: example_flags_def)
  show ?thesis
    using mount_assembly_refines_machine [OF _ 1, of 10 1000 1000 False 1]
      mount_assembly_refines_machine [OF _ 2, of 3 1000 1000 False 1] m
    by simp
qed

text \<open>
  Claim C9 at a failing input. \<open>-S /tmp/sbx//\<close> stores \<open>/tmp/sbx/\<close>: only one
  trailing slash is removed, and the stored root still ends in a slash.
\<close>

theorem sandbox_root_keeps_a_slash:
  "(case handle_option 1000 1000 (CHR ''S'') ''/tmp/sbx//''
           \<lparr>opt = initial_options 4, global_debug = False, optind = 1\<rparr> of
      Inl e \<Rightarrow> None
    | Inr st \<Rightarrow> sandbox_root (opt st)) = Some ''/tmp/sbx/''"
  by (simp add: handle_option_S initial_options_def)

section \<open>Identity mapping: the order of the steps\<close>

lemma WriteFile_cases:
  "WriteFile out e0 = (if write_error out = None then (0, e0) else (- 1, the (write_error out)))"
  by (cases out) simp_all

text \<open>
  The steps of \<open>SetupUserNamespace\<close> and their order, for every kernel. It first writes
  \<open>deny\<close> to \<open>/proc/self/setgroups\<close>; a failure of that write with any \<open>errno\<close> but
  \<open>ENOENT\<close> ends the program there, with no further call. Otherwise it writes the text
  that \<open>"%d %d 1\\n"\<close> gives for \<open>new_uid\<close> and \<open>uid\<close> to \<open>/proc/self/uid_map\<close>, then
  the one for \<open>new_gid\<close> and \<open>gid\<close> to \<open>/proc/self/gid_map\<close>, each fatal on failure,
  and then calls \<open>setresuid\<close> and \<open>setresgid\<close> with the inner id for the real, effective
  and saved ids.
\<close>

lemma SetupUserNamespace_protocol:
  "(write_error (write_file k ''/proc/self/setgroups'' ''deny'') \<notin> {None, Some ENOENT} \<longrightarrow>
      is_fatal (fst (SetupUserNamespace k e0 outer_uid outer_gid new_uid new_gid)) \<and>
      snd (SetupUserNamespace k e0 outer_uid outer_gid new_uid new_gid) =
        [WriteFileCall ''/proc/self/setgroups'' ''deny'']) \<and>
   (write_error (write_file k ''/proc/self/setgroups'' ''deny'') \<in> {None, Some ENOENT} \<and>
    write_error (write_file k ''/proc/self/uid_map'' (map_text new_uid outer_uid)) \<noteq> None \<longrightarrow>
      is_fatal (fst (SetupUserNamespace k e0 outer_uid outer_gid new_uid new_gid)) \<and>
      snd (SetupUserNamespace k e0 outer_uid outer_gid new_uid new_gid) =
        [WriteFileCall ''/proc/self/setgroups'' ''deny'',
         WriteFileCall ''/proc/self/uid_map'' (map_text new_uid outer_uid)]) \<and>
   (write_error (write_file k ''/proc/self/setgroups'' ''deny'') \<in> {None, Some ENOENT} \<and>
    write_error (write_file k ''/proc/self/uid_map'' (map_text new_uid outer_uid)) = None \<and>
    write_error (write_file k ''/proc/self/gid_map'' (map_text new_gid outer_gid)) \<noteq> None \<longrightarrow>
      is_fatal (fst (SetupUserNamespace k e0 outer_uid outer_gid new_uid new_gid)) \<and>
      snd (SetupUserNamespace k e0 outer_uid outer_gid new_uid new_gid) =
        [WriteFileCall ''/proc/self/setgroups'' ''deny'',
         WriteFileCall ''/proc/self/uid_map'' (map_text new_uid outer_uid),
         WriteFileCall ''/proc/self/gid_map'' (map_text new_gid outer_gid)]) \<and>
   (write_error (write_file k ''/proc/self/setgroups'' ''deny'') \<in> {None, Some ENOENT} \<and>
    write_error (write_file k ''/proc/self/uid_map'' (map_text new_uid outer_uid)) = None \<and>
    write_error (write_file k ''/proc/self/gid_map'' (map_text new_gid outer_gid)) = None \<and>
    setresuid_result k new_uid new_uid new_uid = None \<and>
    setresgid_result k new_gid new_gid new_gid = None \<longrightarrow>
      SetupUserNamespace k e0 outer_uid outer_gid new_uid new_gid =
        (Inr (),
         [WriteFileCall ''/proc/self/setgroups'' ''deny'',
          WriteFileCall ''/proc/self/uid_map'' (map_text new_uid outer_uid),
          WriteFileCall ''/proc/self/gid_map'' (map_text new_gid outer_gid),
          SetresuidCall new_uid new_uid new_uid,
          SetresgidCall new_gid new_gid new_gid]))"
proof (intro conjI impI)
  assume "write_error (write_file k ''/proc/self/setgroups'' ''deny'') \<notin> {None, Some ENOENT}"
  then have "WriteFile (write_file k ''/proc/self/setgroups'' ''deny'') e0 =
      (- 1, the (write_error (write_file k ''/proc/self/setgroups'' ''deny''))) \<and>
      the (write_error (write_file k ''/proc/self/setgroups'' ''deny'')) \<noteq> ENOENT"
    by (auto simp: WriteFile_cases)
  then show "is_fatal (fst (SetupUserNamespace k e0 outer_uid outer_gid new_uid new_gid))"
    and "snd (SetupUserNamespace k e0 outer_uid outer_gid new_uid new_gid) =
        [WriteFileCall ''/proc/self/setgroups'' ''deny'']"
    by (simp_all add: SetupUserNamespace_def is_fatal_def)
next
  assume a: "write_error (write_file k ''/proc/self/setgroups'' ''deny'') \<in> {None, Some ENOENT} \<and>
    write_error (write_file k ''/proc/self/uid_map'' (map_text new_uid outer_uid)) \<noteq> None"
  then obtain r e1 where 1: "WriteFile (write_file k ''/proc/self/setgroups'' ''deny'') e0 = (r, e1)"
    "\<not> (r < 0 \<and> e1 \<noteq> ENOENT)"
    by (auto simp: WriteFile_cases)
  from a obtain e2 where 2:
    "WriteFile (write_file k ''/proc/self/uid_map'' (map_text new_uid outer_uid)) e1 = (- 1, e2)"
    by (auto simp: WriteFile_cases)
  from 1 2 show "is_fatal (fst (SetupUserNamespace k e0 outer_uid outer_gid new_uid new_gid))"
    and "snd (SetupUserNamespace k e0 outer_uid outer_gid new_uid new_gid) =
        [WriteFileCall ''/proc/self/setgroups'' ''deny'',
         WriteFileCall ''/proc/self/uid_map'' (map_text new_uid outer_uid)]"
    by (simp_all add: SetupUserNamespace_def is_fatal_def)
next
  assume a: "write_error (write_file k ''/proc/self/setgroups'' ''deny'') \<in> {None, Some ENOENT} \<and>
    write_error (write_file k ''/proc/self/uid_map'' (map_text new_uid outer_uid)) = None \<and>
    write_error (write_file k ''/proc/self/gid_map'' (map_text new_gid outer_gid)) \<noteq> None"
  then obtain r e1 where 1: "WriteFile (write_file k ''/proc/self/setgroups'' ''deny'') e0 = (r, e1)"
    "\<not> (r < 0 \<and> e1 \<noteq> ENOENT)"
    by (auto simp: WriteFile_cases)
  from a have 2:
    "WriteFile (write_file k ''/proc/self/uid_map'' (map_text new_uid outer_uid)) e1 = (0, e1)"
    by (auto simp: WriteFile_cases)
  from a obtain e3 where 3:
    "WriteFile (write_file k ''/proc/self/gid_map'' (map_text new_gid outer_gid)) e1 = (- 1, e3)"
    by (auto simp: WriteFile_cases)
  from 1 2 3 show "is_fatal (fst (SetupUserNamespace k e0 outer_uid outer_gid new_uid new_gid))"
    and "snd (SetupUserNamespace k e0 outer_uid outer_gid new_uid new_gid) =
        [WriteFileCall ''/proc/self/setgroups'' ''deny'',
         WriteFileCall ''/proc/self/uid_map'' (map_text new_uid outer_uid),
         WriteFileCall ''/proc/self/gid_map'' (map_text new_gid outer_gid)]"
    by (simp_all add: SetupUserNamespace_def is_fatal_def)
next
  assume a: "write_error (write_file k ''/proc/self/setgroups'' ''deny'') \<in> {None, Some ENOENT} \<and>
    write_error (write_file k ''/proc/self/uid_map'' (map_text new_uid outer_uid)) = None \<and>
    write_error (write_file k ''/proc/self/gid_map'' (map_text new_gid outer_gid)) = None \<and>
    setresuid_result k new_uid new_uid new_uid = None \<and>
    setresgid_result k new_gid new_gid new_gid = None"
  then obtain r e1 where 1: "WriteFile (write_file k ''/proc/self/setgroups'' ''deny'') e0 = (r, e1)"
    "\<not> (r < 0 \<and> e1 \<noteq> ENOENT)"
    by (auto simp: WriteFile_cases)
  from a have 2:
    "WriteFile (write_file k ''/proc/self/uid_map'' (map_text new_uid outer_uid)) e1 = (0, e1)"
    "WriteFile (write_file k ''/proc/self/gid_map'' (map_text new_gid outer_gid)) e1 = (0, e1)"
    by (auto simp: WriteFile_cases)
  from 1 2 a show "SetupUserNamespace k e0 outer_uid outer_gid new_uid new_gid =
        (Inr (),
         [WriteFileCall ''/proc/self/setgroups'' ''deny'',
          WriteFileCall ''/proc/self/uid_map'' (map_text new_uid outer_uid),
          WriteFileCall ''/proc/self/gid_map'' (map_text new_gid outer_gid),
          SetresuidCall new_uid new_uid new_uid,
          SetresgidCall new_gid new_gid new_gid])"
    by (simp add: SetupUserNamespace_def)
qed

lemma dec_digit: "n < 10 \<Longrightarrow> dec n = [''0123456789'' ! n]"
  by (simp add: dec.simps [of n])

lemma dec_more: "10 \<le> n \<Longrightarrow> dec n = dec (n div 10) @ [''0123456789'' ! (n mod 10)]"
  by (simp add: dec.simps [of n])

lemma dec_65534: "dec 65534 = ''65534''"
  by (simp add: dec_more dec_digit)

lemma dec_1000: "dec 1000 = ''1000''"
  by (simp add: dec_more dec_digit)

lemma map_text_example: "map_text 65534 1000 = ''65534 1000 1'' @ [CHR 0x0A]"
  by (simp add: map_text_def printf_d_def dec_65534 dec_1000)

text \<open>The steps for the ids 1000 and 65534, on a kernel without \<open>setgroups\<close> and on one
  that refuses the write to it.\<close>

lemma SetupUserNamespace_protocol_example:
  "SetupUserNamespace old_kernel EINVAL 1000 1000 65534 65534 =
     (Inr (),
      [WriteFileCall ''/proc/self/setgroups'' ''deny'',
       WriteFileCall ''/proc/self/uid_map'' (''65534 1000 1'' @ [CHR 0x0A]),
       WriteFileCall ''/proc/self/gid_map'' (''65534 1000 1'' @ [CHR 0x0A]),
       SetresuidCall 65534 65534 65534,
       SetresgidCall 65534 65534 65534]) \<and>
   is_fatal (fst (SetupUserNamespace strict_kernel EINVAL 1000 1000 65534 65534)) \<and>
   snd (SetupUserNamespace strict_kernel EINVAL 1000 1000 65534 65534) =
     [WriteFileCall ''/proc/self/setgroups'' ''deny'']"
  using SetupUserNamespace_protocol [where k = old_kernel and ?e0.0 = EINVAL and outer_uid = 1000
      and outer_gid = 1000 and new_uid = 65534 and new_gid = 65534]
    SetupUserNamespace_protocol [where k = strict_kernel and ?e0.0 = EINVAL and outer_uid = 1000
      and outer_gid = 1000 and new_uid = 65534 and new_gid = 65534]
  by (simp add: old_kernel_def strict_kernel_def map_text_example)

lemma dec_1294967296: "dec 1294967296 = ''1294967296''"
  by (simp add: dec_more dec_digit)

lemma map_text_negative: "map_text 65534 3000000000 = ''65534 -1294967296 1'' @ [CHR 0x0A]"
  by (simp add: map_text_def printf_d_def dec_65534 dec_1294967296)

text \<open>
  Claim C4 at a failing input. The program runs as user and group 3000000000 and maps them
  to 65534 inside. The steps come in the order the claim gives, but the line written to
  \<open>/proc/self/uid_map\<close> is \<open>65534 -1294967296 1\<close> and not \<open>65534 3000000000 1\<close>, and
  the same for \<open>/proc/self/gid_map\<close>: the ids are of the unsigned type \<open>uid_t\<close>, and the
  format prints them with \<open>%d\<close>.
\<close>

theorem SetupUserNamespace_negative_id:
  "SetupUserNamespace old_kernel EINVAL 3000000000 3000000000 65534 65534 =
     (Inr (),
      [WriteFileCall ''/proc/self/setgroups'' ''deny'',
       WriteFileCall ''/proc/self/uid_map'' (''65534 -1294967296 1'' @ [CHR 0x0A]),
       WriteFileCall ''/proc/self/gid_map'' (''65534 -1294967296 1'' @ [CHR 0x0A]),
       SetresuidCall 65534 65534 65534,
       SetresgidCall 65534 65534 65534]) \<and>
   map_text 65534 3000000000 \<noteq> ''65534 3000000000 1'' @ [CHR 0x0A]"
  by (simp add: SetupUserNamespace_def old_kernel_def map_text_negative)

section \<open>User mounts: the read-only remount\<close>

lemma events_mounted [simp]:
  "events (mounted k source target flags st) = events st @ [MountCall source target flags]"
  by (simp add: mounted_def)

lemma events_remount_failed [simp]:
  "events (remount_failed source target flags e st) =
     events st @ [MountCall source target flags, RemountWarning target e]"
  by (simp add: remount_failed_def)

lemma mount_calls_mounted [simp]:
  "mount_calls (mounted k source target flags st) = mount_calls st + 1"
  by (simp add: mounted_def)

text \<open>
  Claim C6. For a mount entry whose target \<open>CreateTarget\<close> has made and whose recursive
  bind mount succeeded: with \<open>rw\<close> set, the bind mount is the only \<open>mount\<close> call for the
  entry. With \<open>rw\<close> clear, and \<open>/proc/self/mounts\<close> readable so that \<open>GetMountFlags\<close>
  gives the inherited flags, exactly one more \<open>mount\<close> call follows, with the flags
  \<open>inherited | MS_REC | MS_BIND | MS_REMOUNT | MS_RDONLY\<close>; when it fails, a warning is
  printed and nothing else happens. Either way the loop goes on with the next entry.
\<close>

theorem user_mount_remount:
  "CreateTarget (source_checked st source) (Some (root @ target)) (source_isdir k st source)
     = Inr (0, w1) \<and>
   mount_result k (mount_calls st) source (root @ target) (MS_REC OR MS_BIND) = None \<longrightarrow>
     (\<exists>st'. mount_entry k root (Some source, Some target, True) st = Inr st' \<and>
        events st' = events st @ [MountCall source (root @ target) (MS_REC OR MS_BIND)] \<and>
        mount_all k root ((Some source, Some target, True) # rest) st = mount_all k root rest st') \<and>
     (GetMountFlags (proc_mounts k (mount_calls st + 1)) (root @ target) = Inr inherited \<longrightarrow>
        (\<exists>st'. mount_entry k root (Some source, Some target, False) st = Inr st' \<and>
           events st' =
             events st @
             [MountCall source (root @ target) (MS_REC OR MS_BIND),
              MountCall source (root @ target)
                (inherited OR MS_REC OR MS_BIND OR MS_REMOUNT OR MS_RDONLY)] @
             (case mount_result k (mount_calls st + 1) source (root @ target)
                     (inherited OR MS_REC OR MS_BIND OR MS_REMOUNT OR MS_RDONLY) of
                None \<Rightarrow> []
              | Some e \<Rightarrow> [RemountWarning (root @ target) e]) \<and>
           mount_all k root ((Some source, Some target, False) # rest) st =
             mount_all k root rest st'))"
proof (intro impI conjI)
  assume a: "CreateTarget (source_checked st source) (Some (root @ target)) (source_isdir k st source)
     = Inr (0, w1) \<and>
   mount_result k (mount_calls st) source (root @ target) (MS_REC OR MS_BIND) = None"
  then have c: "CreateTarget (source_checked st source) (Some (root @ target))
      (source_isdir k st source) = Inr (0, w1)"
    and b: "mount_result k (mount_calls st) source (root @ target) bind_flags = None"
    by (simp_all add: bind_flags_def)
  have rw: "mount_entry k root (Some source, Some target, True) st =
      Inr (mounted k source (root @ target) bind_flags (st\<lparr>fs := w1\<rparr>))"
    by (simp add: mount_entry_def c b)
  show "\<exists>st'. mount_entry k root (Some source, Some target, True) st = Inr st' \<and>
        events st' = events st @ [MountCall source (root @ target) (MS_REC OR MS_BIND)] \<and>
        mount_all k root ((Some source, Some target, True) # rest) st = mount_all k root rest st'"
    by (simp add: rw) (simp add: bind_flags_def)
  assume g: "GetMountFlags (proc_mounts k (mount_calls st + 1)) (root @ target) = Inr inherited"
  let ?fl = "inherited OR MS_REC OR MS_BIND OR MS_REMOUNT OR MS_RDONLY"
  show "\<exists>st'. mount_entry k root (Some source, Some target, False) st = Inr st' \<and>
           events st' =
             events st @
             [MountCall source (root @ target) (MS_REC OR MS_BIND),
              MountCall source (root @ target) ?fl] @
             (case mount_result k (mount_calls st + 1) source (root @ target) ?fl of
                None \<Rightarrow> []
              | Some e \<Rightarrow> [RemountWarning (root @ target) e]) \<and>
           mount_all k root ((Some source, Some target, False) # rest) st =
             mount_all k root rest st'"
  proof (cases "mount_result k (mount_calls st + 1) source (root @ target) ?fl")
    case None
    then have "mount_entry k root (Some source, Some target, False) st =
        Inr (mounted k source (root @ target) (remount_flags inherited)
               (mounted k source (root @ target) bind_flags (st\<lparr>fs := w1\<rparr>)))"
      using g by (simp add: mount_entry_def c b remount_flags_def)
    with None show ?thesis
      by (simp add: remount_flags_def bind_flags_def)
  next
    case (Some e)
    then have "mount_entry k root (Some source, Some target, False) st =
        Inr (remount_failed source (root @ target) (remount_flags inherited) e
               (mounted k source (root @ target) bind_flags (st\<lparr>fs := w1\<rparr>)))"
      using g by (simp add: mount_entry_def c b remount_flags_def)
    with Some show ?thesis
      by (simp add: remount_flags_def bind_flags_def)
  qed
qed

lemma stat_host_bin: "stat host_world ''/bin'' = Inr \<lparr>kind = Dir, perm = mode_0755\<rparr>"
  by (simp add: stat_def host_world_def start_dir_def node_at_def step_def)

lemma stat_host_sandbox_bin: "stat host_world ''/sandbox/bin'' = Inl ENOENT"
  by (simp add: stat_def host_world_def start_dir_def node_at_def step_def)

lemma stat_host_sandbox: "stat host_world ''/sandbox'' = Inr \<lparr>kind = Dir, perm = mode_0755\<rparr>"
  by (simp add: stat_def host_world_def start_dir_def node_at_def step_def)

lemma dirname_sandbox_bin: "dirname ''/sandbox/bin'' = ''/sandbox''"
  by (simp add: dirname_def strip_slashes_def strip_name_def)

lemma mkdir_host_sandbox_bin:
  "mkdir (host_world\<lparr>errno := ENOENT\<rparr>) ''/sandbox/bin'' mode_0755 = Inr host_world_bin"
  by (simp add: mkdir_def create_node_def host_world_def host_world_bin_def start_dir_def
      node_at_def step_def)

lemma CreateTarget_host_sandbox_bin:
  "CreateTarget host_world (Some ''/sandbox/bin'') True = Inr (0, host_world_bin)"
proof -
  have 1: "stat host_world (target_path ''/sandbox/bin'') = Inl ENOENT"
    by (simp add: target_path_def stat_host_sandbox_bin)
  have 2: "CreateTarget (host_world\<lparr>errno := ENOENT\<rparr>) (Some ''/sandbox'') True
      = Inr (0, host_world\<lparr>errno := ENOENT\<rparr>)"
    by (simp add: CreateTarget_found [of _ _ "\<lparr>kind = Dir, perm = mode_0755\<rparr>"] target_path_def
        stat_host_sandbox)
  show ?thesis
    by (simp add: CreateTarget_missing [OF 1])
       (simp add: target_path_def dirname_sandbox_bin 2 mkdir_host_sandbox_bin)
qed

lemma inherited_example:
  "GetMountFlags (proc_mounts refusing_kernel 1) ''/sandbox/bin'' = Inr MS_NOSUID"
  by (simp add: refusing_kernel_def GetMountFlags_def hasmntopt_def MS_NOSUID_def)

theorem user_mount_remount_witness:
  "(\<exists>st'. mount_entry refusing_kernel ''/sandbox'' (Some ''/bin'', Some ''/bin'', True) start_state
           = Inr st' \<and>
          events st' = [MountCall ''/bin'' ''/sandbox/bin'' 20480]) \<and>
   (\<exists>st'. mount_entry refusing_kernel ''/sandbox'' (Some ''/bin'', Some ''/bin'', False) start_state
           = Inr st' \<and>
          events st' =
            [MountCall ''/bin'' ''/sandbox/bin'' 20480, MountCall ''/bin'' ''/sandbox/bin'' 20515,
             RemountWarning ''/sandbox/bin'' EPERM])"
proof -
  have c: "CreateTarget (source_checked start_state ''/bin'') (Some (''/sandbox'' @ ''/bin''))
      (source_isdir refusing_kernel start_state ''/bin'') = Inr (0, host_world_bin)"
    by (simp add: source_checked_def source_isdir_def start_state_def stat_host_bin
        CreateTarget_host_sandbox_bin)
  have b: "mount_result refusing_kernel (mount_calls start_state) ''/bin'' (''/sandbox'' @ ''/bin'')
      (MS_REC OR MS_BIND) = None"
    by (simp add: refusing_kernel_def bind_flags_def)
  have g: "GetMountFlags (proc_mounts refusing_kernel (mount_calls start_state + 1))
      (''/sandbox'' @ ''/bin'') = Inr MS_NOSUID"
    using inherited_example by (simp add: start_state_def)
  have r: "mount_result refusing_kernel (mount_calls start_state + 1) ''/bin'' (''/sandbox'' @ ''/bin'')
      (MS_NOSUID OR MS_REC OR MS_BIND OR MS_REMOUNT OR MS_RDONLY) = Some EPERM"
    by (simp add: refusing_kernel_def bind_flags_def MS_NOSUID_def MS_REC_def MS_BIND_def
        MS_REMOUNT_def MS_RDONLY_def)
  from user_mount_remount [where st = start_state and source = "''/bin''" and root = "''/sandbox''"
      and target = "''/bin''" and k = refusing_kernel and ?w1.0 = host_world_bin
      and inherited = MS_NOSUID and rest = "[]"] c b g r
  show ?thesis
    by (auto simp: start_state_def MS_NOSUID_def MS_REC_def MS_BIND_def MS_REMOUNT_def MS_RDONLY_def)
qed

section \<open>Argument files\<close>

text \<open>
  The loop over the \<open>@FILE\<close> arguments. For an argument \<open>@FILE\<close> at \<open>optind\<close>, where
  \<open>FILE\<close> can be opened, has no NUL byte and no line of more than 8190 bytes: the lines
  of the file are the arguments of a fresh vector whose element 0 is the empty string.
  \<open>ParseCommandLine\<close> is called on this vector with \<open>optind\<close> set to 0 and with the same
  options, so a file may name further files; afterwards \<open>optind\<close> is the saved index plus
  one, and the loop goes on with the next argument. The fuel left for the files inside is
  what the caller had, less one.
\<close>

lemma argument_file_recursion:
  "optind st < length argv \<and> argv ! optind st = CHR ''@'' # filename \<and>
   fopen env filename = Some contents \<and> NUL \<notin> set contents \<and>
   (\<forall>l\<in>set (file_lines contents). length l \<le> 8190) \<longrightarrow>
     ParseOptionsFile_argv (fopen env filename) = Inr ([] # file_lines contents) \<and>
     argument_files env (Suc fuel) argv st =
       (case ParseCommandLine env fuel ([] # file_lines contents) (st\<lparr>optind := 0\<rparr>) of
          None \<Rightarrow> None
        | Some (Inl e) \<Rightarrow> Some (Inl e)
        | Some (Inr st') \<Rightarrow> argument_files env (Suc fuel) argv (st'\<lparr>optind := optind st + 1\<rparr>))"
proof (intro impI)
  assume a: "optind st < length argv \<and> argv ! optind st = CHR ''@'' # filename \<and>
   fopen env filename = Some contents \<and> NUL \<notin> set contents \<and>
   (\<forall>l\<in>set (file_lines contents). length l \<le> 8190)"
  then have r: "ParseOptionsFile_argv (fopen env filename) = Inr ([] # file_lines contents)"
    by (simp add: ParseOptionsFile_argv_def read_arguments_lines)
  from a have f: "is_file_argument (argv ! optind st)" "tl (argv ! optind st) = filename"
    by (simp_all add: is_file_argument_def)
  show "ParseOptionsFile_argv (fopen env filename) = Inr ([] # file_lines contents) \<and>
     argument_files env (Suc fuel) argv st =
       (case ParseCommandLine env fuel ([] # file_lines contents) (st\<lparr>optind := 0\<rparr>) of
          None \<Rightarrow> None
        | Some (Inl e) \<Rightarrow> Some (Inl e)
        | Some (Inr st') \<Rightarrow> argument_files env (Suc fuel) argv (st'\<lparr>optind := optind st + 1\<rparr>))"
    using a f r by (subst argument_files.simps) simp
qed

text \<open>
  A file inside a file: \<open>@outer\<close> is argument 3; the file \<open>outer\<close> holds \<open>-M\<close>,
  \<open>/bin\<close> and \<open>@inner\<close>, and the file \<open>inner\<close> holds \<open>-d\<close> and \<open>/var/cache\<close>. Both
  files are read, the mount and the directory are recorded, and \<open>optind\<close> is 4 at the end.
\<close>

lemma argument_file_recursion_example:
  "ParseOptionsFile_argv (fopen example_env ''outer'') = Inr [[], ''-M'', ''/bin'', ''@inner''] \<and>
   (\<exists>st'. argument_files example_env (Suc 1) example_argv (example_parser\<lparr>optind := 3\<rparr>)
            = Some (Inr st') \<and>
      mount_entries (opt st') = [(Some ''/bin'', Some ''/bin'', False)] \<and>
      take 1 (create_dirs (opt st')) = [Some ''/var/cache''] \<and> optind st' = 4)"
proof -
  have h: "optind (example_parser\<lparr>optind := 3\<rparr>) < length example_argv \<and>
      example_argv ! optind (example_parser\<lparr>optind := 3\<rparr>) = CHR ''@'' # ''outer'' \<and>
      fopen example_env ''outer'' = Some outer_file \<and>
      NUL \<notin> set outer_file \<and>
      (\<forall>l\<in>set (file_lines outer_file). length l \<le> 8190)"
    by (simp add: outer_lines) (simp add: example_argv_def example_env_def outer_file_def NUL_def NL_def)
  note r = argument_file_recursion [where st = "example_parser\<lparr>optind := 3\<rparr>" and argv = example_argv
      and filename = "''outer''" and env = example_env and fuel = 1 and contents = outer_file,
      THEN mp, OF h, unfolded outer_lines]
  show ?thesis
    apply (rule conjI)
     apply (rule r [THEN conjunct1])
    apply (subst r [THEN conjunct2])
    apply (simp add: ParseCommandLine.simps argument_files.simps fopen_inner example_argv_def
        parse_flags_def handle_option_def AddMountSource_def
        close_pending_mount_def not_absolute_def mount_map_full_def example_parser_def
        initial_options_def is_file_argument_def mount_entries_def replicate_5
        simple_getopt_def takes_argument_def)
    done
qed

text \<open>
  Claim C7 at a failing input. The file \<open>blank\<close> has the lines \<open>-M\<close>, an empty line,
  and \<open>/bin\<close>. \<open>ParseOptionsFile\<close> tests \<open>length == 0\<close> before it takes the newline
  off, where an empty line still has length 1: the empty line is not skipped, but stored
  as an empty argument, and the vector has four elements, not three. The empty argument
  is then the one of \<open>-M\<close>, and \<open>sandbox @blank\<close> ends with a usage error, where
  with the empty line skipped \<open>/bin\<close> would be mounted.
\<close>

theorem empty_line_is_an_argument:
  "ParseOptionsFile_argv (Some (''-M'' @ [NL, NL] @ ''/bin'' @ [NL])) = Inr [[], ''-M'', [], ''/bin''] \<and>
   ParseOptionsFile_argv (Some (''-M'' @ [NL, NL] @ ''/bin'' @ [NL])) \<noteq> Inr [[], ''-M'', ''/bin''] \<and>
   fopen example_env ''blank'' = Some (''-M'' @ [NL, NL] @ ''/bin'' @ [NL]) \<and>
   ParseCommandLine example_env 1 [''sandbox'', ''@blank''] example_parser =
     Some (Inl (UsageError ''The -M option must be used with absolute paths only.''))"
proof -
  have f: "fopen example_env ''blank'' = Some (''-M'' @ [NL, NL] @ ''/bin'' @ [NL])"
    by (simp add: example_env_def blank_line_file_def)
  have p: "ParseOptionsFile_argv (Some (''-M'' @ [NL, NL] @ ''/bin'' @ [NL])) = Inr [[], ''-M'', [], ''/bin'']"
    using fopen_blank by (simp only: f)
  have c: "ParseCommandLine example_env 1 [''sandbox'', ''@blank''] example_parser =
     Some (Inl (UsageError ''The -M option must be used with absolute paths only.''))"
    by (simp add: ParseCommandLine.simps argument_files.simps fopen_blank
        parse_flags_def handle_option_def AddMountSource_def
        close_pending_mount_def not_absolute_def mount_map_full_def example_parser_def
        initial_options_def is_file_argument_def replicate_5
        simple_getopt_def takes_argument_def)
  from f p c show ?thesis by simp
qed

end
